theory Spec2Isabelle
  imports Complex_Main "HOL-Library.Word" "HOL-Library.Sublist"
begin

text \<open>
  A model of the UI generation engine (\<^verbatim>\<open>class UIGenerator\<close>): the prompt builder, the
  call to the generative-language service with its fallback, the extraction of code from
  the response, the writer and the validator.

  The methods are \<^verbatim>\<open>async\<close> or synchronous functions that run to completion one after
  the other; each is a function of its arguments and of the part of the world it touches
  (the instance, the answer of the service, the file system), and returns its outcome
  together with the file system it leaves and the requests it sent. An exception is a value
  \<open>Inl e\<close> of the outcome. Console output is not modelled.
\<close>

section \<open>JavaScript strings\<close>

text \<open>
  A JavaScript string is a sequence of UTF-16 code units, and every string operation the
  generator uses (\<^verbatim>\<open>match\<close>, \<^verbatim>\<open>replace\<close>, \<^verbatim>\<open>trim\<close>, \<^verbatim>\<open>includes\<close>, template
  literals) works on code units. A string is therefore a list of 16-bit words. ASCII text
  is written with \<open>js\<close>; a code unit outside the literal syntax is written as a number.
\<close>

type_synonym jschar = "16 word"
type_synonym jsstring = "jschar list"

definition js :: "string \<Rightarrow> jsstring" where
  "js s = map of_char s"

definition NL :: jschar where
  "NL = 0x0A"

definition BT :: jschar where
  "BT = 0x60"

definition fence :: jsstring where
  "fence = [BT, BT, BT]"

text \<open>
  \<^verbatim>\<open>String.prototype.trim\<close> removes WhiteSpace and LineTerminator code units from both
  ends (ECMAScript: TAB, VT, FF, SP, NBSP, ZWNBSP, the Unicode space separators, LF, CR,
  LS, PS).
\<close>

definition is_js_whitespace :: "jschar \<Rightarrow> bool" where
  "is_js_whitespace c \<longleftrightarrow>
     c \<in> {0x09, 0x0A, 0x0B, 0x0C, 0x0D, 0x20, 0xA0, 0x1680,
          0x2000, 0x2001, 0x2002, 0x2003, 0x2004, 0x2005, 0x2006, 0x2007, 0x2008, 0x2009,
          0x200A, 0x2028, 0x2029, 0x202F, 0x205F, 0x3000, 0xFEFF}"

definition trim :: "jsstring \<Rightarrow> jsstring" where
  "trim s = rev (dropWhile is_js_whitespace (rev (dropWhile is_js_whitespace s)))"

text \<open>\<^verbatim>\<open>content.includes(element)\<close>: the element occurs as a contiguous run.\<close>

fun String_includes :: "jsstring \<Rightarrow> jsstring \<Rightarrow> bool" where
  "String_includes [] m = (m = [])"
| "String_includes (c # cs) m = (prefix m (c # cs) \<or> String_includes cs m)"

section \<open>ResponseExtractor: extractCodeFromResponse\<close>

text \<open>
  The first regular expression is
  \<^verbatim>\<open>/```(?:typescript|tsx|ts)?\n([\s\S]*?)\n```/g\<close>.
  The matcher below follows the backtracking semantics of the expression at one start
  position: the alternatives of the optional tag are tried in the order written, the empty
  tag last, and the lazy group takes the shortest run of arbitrary code units after which a
  newline and a closing fence follow.
\<close>

definition tags :: "jsstring list" where
  "tags = [js ''typescript'', js ''tsx'', js ''ts'']"

text \<open>\<^verbatim>\<open>([\s\S]*?)\n```\<close> at the start of the text: the captured group and the text left.\<close>

fun lazy_until_close :: "jsstring \<Rightarrow> (jsstring \<times> jsstring) option" where
  "lazy_until_close [] = None"
| "lazy_until_close (c # cs) =
     (if prefix (NL # fence) (c # cs) then Some ([], drop 4 (c # cs))
      else (case lazy_until_close cs of
              None \<Rightarrow> None
            | Some (g, r) \<Rightarrow> Some (c # g, r)))"

text \<open>Ordered alternation: the first alternative whose continuation succeeds.\<close>

fun first_some :: "('a \<Rightarrow> 'b option) \<Rightarrow> 'a list \<Rightarrow> 'b option" where
  "first_some f [] = None"
| "first_some f (x # xs) = (case f x of Some y \<Rightarrow> Some y | None \<Rightarrow> first_some f xs)"

text \<open>The tag \<open>t\<close>, then \<^verbatim>\<open>\n([\s\S]*?)\n```\<close>, on the text after the opening fence.\<close>

definition match_after_tag :: "jsstring \<Rightarrow> jsstring \<Rightarrow> (jsstring \<times> jsstring \<times> jsstring) option" where
  "match_after_tag s t =
     (if prefix (t @ [NL]) s
      then (case lazy_until_close (drop (length t + 1) s) of
              None \<Rightarrow> None
            | Some (g, r) \<Rightarrow> Some (t, g, r))
      else None)"

text \<open>
  The whole expression at the start of the text: the matched substring, the captured
  group and the text after the match.
\<close>

definition codeBlockRegex_at :: "jsstring \<Rightarrow> (jsstring \<times> jsstring \<times> jsstring) option" where
  "codeBlockRegex_at s =
     (if prefix fence s
      then (case first_some (match_after_tag (drop 3 s)) (tags @ [[]]) of
              None \<Rightarrow> None
            | Some (t, g, r) \<Rightarrow> Some (fence @ t @ [NL] @ g @ [NL] @ fence, g, r))
      else None)"

lemma lazy_until_close_length:
  "lazy_until_close s = Some (g, r) \<Longrightarrow> length r < length s"
  by (induction s arbitrary: g r) (auto split: if_splits option.splits)

lemma first_some_Some:
  "first_some f xs = Some y \<Longrightarrow> \<exists>x \<in> set xs. f x = Some y"
  by (induction xs) (auto split: option.splits)

lemma match_after_tag_Some:
  "match_after_tag s t = Some (t', g, r) \<longleftrightarrow>
     t' = t \<and> prefix (t @ [NL]) s \<and> lazy_until_close (drop (length t + 1) s) = Some (g, r)"
  by (auto simp: match_after_tag_def split: option.splits)

lemma codeBlockRegex_at_Some:
  assumes "codeBlockRegex_at s = Some (m, g, r)"
  shows "\<exists>t \<in> set (tags @ [[]]). prefix (fence @ t @ [NL]) s
           \<and> lazy_until_close (drop (length t + 4) s) = Some (g, r)
           \<and> m = fence @ t @ [NL] @ g @ [NL] @ fence"
proof -
  from assms have pf: "prefix fence s"
    by (simp add: codeBlockRegex_at_def split: if_splits)
  then obtain u where s: "s = fence @ u"
    by (auto simp: prefix_def)
  have d: "drop 3 s = u"
    by (simp add: s fence_def)
  from assms pf obtain t where fs: "first_some (match_after_tag u) (tags @ [[]]) = Some (t, g, r)"
    and m: "m = fence @ t @ [NL] @ g @ [NL] @ fence"
    by (auto simp: codeBlockRegex_at_def d split: option.splits)
  from first_some_Some [OF fs] obtain x where x: "x \<in> set (tags @ [[]])"
    and mx: "match_after_tag u x = Some (t, g, r)"
    by blast
  from mx have tx: "t = x" and px: "prefix (x @ [NL]) u"
    and lz: "lazy_until_close (drop (length x + 1) u) = Some (g, r)"
    by (simp_all add: match_after_tag_Some)
  have "drop (length t + 4) s = drop (length x + 1) u"
    by (simp add: d [symmetric] tx add.commute)
  with x tx px lz m s show ?thesis
    by auto
qed

lemma codeBlockRegex_at_length:
  assumes "codeBlockRegex_at s = Some (m, g, r)"
  shows "length r < length s"
proof -
  from codeBlockRegex_at_Some [OF assms] obtain t :: jsstring
    where "lazy_until_close (drop (length t + 4) s) = Some (g, r)"
    by blast
  from lazy_until_close_length [OF this] show ?thesis
    by simp
qed

text \<open>
  \<^verbatim>\<open>response.match(codeBlockRegex)\<close> with the \<^verbatim>\<open>g\<close> flag: the scan starts at index 0,
  resumes after each match (a match is never empty here) and moves one code unit forward
  where the expression does not match. The captured group is kept beside each match.
\<close>

function regex_match_all :: "jsstring \<Rightarrow> (jsstring \<times> jsstring) list" where
  "regex_match_all s =
     (case codeBlockRegex_at s of
        Some (m, g, r) \<Rightarrow> (m, g) # regex_match_all r
      | None \<Rightarrow> (case s of [] \<Rightarrow> [] | c # cs \<Rightarrow> regex_match_all cs))"
  by pat_completeness auto
termination
  by (relation "measure length") (auto dest: codeBlockRegex_at_length)

declare regex_match_all.simps [simp del]

text \<open>The result of \<^verbatim>\<open>match\<close>: \<^verbatim>\<open>null\<close> when nothing matches, else the matched substrings.\<close>

definition String_match :: "jsstring \<Rightarrow> jsstring list option" where
  "String_match s = (case regex_match_all s of [] \<Rightarrow> None | ms \<Rightarrow> Some (map fst ms))"

text \<open>
  The second expression, \<^verbatim>\<open>/```(?:typescript|tsx|ts)?\n?/g\<close>, at the start of the text:
  the text after the match. Both optional parts are greedy and nothing follows them, so the
  first tag that fits is taken, then a newline if there is one.
\<close>

definition openFence_at :: "jsstring \<Rightarrow> jsstring option" where
  "openFence_at s =
     (if prefix fence s
      then (let s1 = drop 3 s;
                s2 = (case first_some (\<lambda>t. if prefix t s1 then Some t else None) tags of
                        Some t \<Rightarrow> drop (length t) s1
                      | None \<Rightarrow> s1);
                s3 = (case s2 of [] \<Rightarrow> s2 | c # cs \<Rightarrow> if c = NL then cs else s2)
            in Some s3)
      else None)"

lemma openFence_at_length:
  assumes "openFence_at s = Some r"
  shows "length r < length s"
proof -
  from assms have pf: "prefix fence s"
    by (simp add: openFence_at_def split: if_splits)
  define s1 where "s1 = drop 3 s"
  define s2 where "s2 = (case first_some (\<lambda>t. if prefix t s1 then Some t else None) tags of
                           Some t \<Rightarrow> drop (length t) s1 | None \<Rightarrow> s1)"
  have "(case s2 of [] \<Rightarrow> s2 | c # cs \<Rightarrow> if c = NL then cs else s2) = r"
    unfolding s2_def s1_def using assms pf by (simp add: openFence_at_def Let_def)
  then have r: "r = (case s2 of [] \<Rightarrow> s2 | c # cs \<Rightarrow> if c = NL then cs else s2)"
    by simp
  have "length s2 \<le> length s1"
    by (simp add: s2_def split: option.splits)
  moreover have "length r \<le> length s2"
    by (simp add: r split: list.splits)
  moreover from pf have "length s1 < length s"
    by (auto simp: s1_def prefix_def fence_def)
  ultimately show ?thesis
    by simp
qed

text \<open>\<^verbatim>\<open>.replace(/```(?:typescript|tsx|ts)?\n?/g, '')\<close>: every match is deleted.\<close>

function replace_openFence :: "jsstring \<Rightarrow> jsstring" where
  "replace_openFence s =
     (case openFence_at s of
        Some r \<Rightarrow> replace_openFence r
      | None \<Rightarrow> (case s of [] \<Rightarrow> [] | c # cs \<Rightarrow> c # replace_openFence cs))"
  by pat_completeness auto
termination
  by (relation "measure length") (auto dest: openFence_at_length)

declare replace_openFence.simps [simp del]

text \<open>
  \<^verbatim>\<open>.replace(/\n```$/g, '')\<close>: without the \<^verbatim>\<open>m\<close> flag \<^verbatim>\<open>$\<close> is the end of the
  input, so the only possible match is the last four code units.
\<close>

definition replace_closeFence :: "jsstring \<Rightarrow> jsstring" where
  "replace_closeFence s =
     (if suffix (NL # fence) s then take (length s - 4) s else s)"

definition extractCodeFromResponse :: "jsstring \<Rightarrow> jsstring" where
  "extractCodeFromResponse response =
     (case String_match response of
        Some (m0 # ms) \<Rightarrow> trim (replace_closeFence (replace_openFence m0))
      | _ \<Rightarrow> trim response)"

section \<open>FallbackTemplateProvider: generateEnhancedFallbackUI\<close>

text \<open>A template literal that spans several source lines: the lines joined by newlines.\<close>

fun join_lines :: "jsstring list \<Rightarrow> jsstring" where
  "join_lines [] = []"
| "join_lines [l] = l"
| "join_lines (l # l' # ls) = l @ NL # join_lines (l' # ls)"

text \<open>
  The value of the template literal of \<^verbatim>\<open>generateEnhancedFallbackUI\<close>, line by line
  (the escapes of the source, a backslash before a backtick or a dollar sign, are resolved).
\<close>

definition generateEnhancedFallbackUI_lines :: "jsstring list" where
  \<open>generateEnhancedFallbackUI_lines =
    [
     [0x0027] @ js ''use client'' @ [0x0027],
     [],
     js ''import React from 'react'' @ [0x0027],
     js ''import { Button } from '@/components/ui/button'' @ [0x0027],
     js ''import { Card, CardContent, CardDescription, CardHeader, CardTitle } from '@/components/ui/card'' @ [0x0027],
     js ''import { Badge } from '@/components/ui/badge'' @ [0x0027],
     js ''import { ArrowRight, Calculator, TrendingUp, Shield, Users } from 'lucide-react'' @ [0x0027],
     js ''import { useFuyouStore } from '@/store/fuyouStore'' @ [0x0027],
     [],
     js ''/**'',
     js '' * MATURA Generated UI - '' @ [0x6276, 0x990A, 0x63A7, 0x9664, 0x8A08, 0x7B97, 0x30A2, 0x30D7, 0x30EA],
     js '' * '' @ [0x81EA, 0x52D5, 0x751F, 0x6210, 0x3055, 0x308C, 0x305F] @ js ''UI'' @ [0x96DB, 0x5F62],
     js '' */'',
     js ''export default function GeneratedUI() {'',
     js ''  // ===== Zustand Store '' @ [0x9023, 0x643A] @ js '' ====='',
     js ''  const { '',
     js ''    income, '',
     js ''    remainingLimit, '',
     js ''    dependentCount,'',
     js ''    updateIncome, '',
     js ''    addDependent, '',
     js ''    removeDependent,'',
     js ''    calculateRemaining '',
     js ''  } = useFuyouStore()'',
     [],
     js ''  // ===== Event Handlers ====='',
     js ''  const handleIncomeUpdate = () => {'',
     js ''    console.log('' @ [0x0027, 0xD83D, 0xDD04] @ js '' [Generated UI] Income update triggered')'',
     js ''    updateIncome(income + 100000) // 10'' @ [0x4E07, 0x5186, 0x8FFD, 0x52A0, 0x4F8B],
     js ''    calculateRemaining()'',
     js ''    console.log(`'' @ [0xD83D, 0xDCB0] @ js '' Updated income: '' @ [0x00A5] @ js ''${income.toLocaleString()}`)'',
     js ''    console.log(`'' @ [0xD83D, 0xDCCA] @ js '' Remaining limit: '' @ [0x00A5] @ js ''${remainingLimit.toLocaleString()}`)'',
     js ''  }'',
     [],
     js ''  const handleDependentAdd = () => {'',
     js ''    console.log('' @ [0x0027, 0xD83D, 0xDC65] @ js '' [Generated UI] Adding dependent')'',
     js ''    addDependent()'',
     js ''    calculateRemaining()'',
     js ''    console.log(`'' @ [0xD83D, 0xDC68, 0x200D, 0xD83D, 0xDC69, 0x200D, 0xD83D, 0xDC67, 0x200D, 0xD83D, 0xDC66] @ js '' Dependents: ${dependentCount}`)'',
     js ''  }'',
     [],
     js ''  const handleCalculate = async () => {'',
     js ''    console.log('' @ [0x0027, 0xD83E, 0xDDEE] @ js '' [Generated UI] Starting calculation...')'',
     js ''    '',
     js ''    // API'' @ [0x547C, 0x3073, 0x51FA, 0x3057, 0x30B7, 0x30DF, 0x30E5, 0x30EC, 0x30FC, 0x30B7, 0x30E7, 0x30F3],
     js ''    try {'',
     js ''      const response = await fetch('/api/fuyouCheck', {'',
     js ''        method: 'POST','',
     js ''        headers: { 'Content-Type': 'application/json' },'',
     js ''        body: JSON.stringify({ income, dependentCount })'',
     js ''      })'',
     js ''      '',
     js ''      if (response.ok) {'',
     js ''        const result = await response.json()'',
     js ''        console.log('' @ [0x0027, 0x2705] @ js '' [Generated UI] API call successful:', result)'',
     js ''        updateIncome(result.adjustedIncome || income)'',
     js ''      }'',
     js ''    } catch (error) {'',
     js ''      console.warn('' @ [0x0027, 0x26A0, 0xFE0F] @ js '' [Generated UI] API call failed:', error)'',
     js ''    }'',
     js ''  }'',
     [],
     js ''  return ('',
     js ''    <div className="min-h-screen bg-gradient-to-br from-blue-50 to-indigo-100">'',
     js ''      {/* Hero Section */}'',
     js ''      <section className="relative overflow-hidden bg-white">'',
     js ''        <div className="container mx-auto px-6 py-20">'',
     js ''          <div className="text-center space-y-8">'',
     js ''            {/* Badge */}'',
     js ''            <Badge className="bg-blue-100 text-blue-800 border-blue-200 px-4 py-2">'',
     js ''              <Calculator className="w-4 h-4 mr-2" />'',
     js ''              '' @ [0x81EA, 0x52D5, 0x751F, 0x6210] @ js ''AI powered'',
     js ''            </Badge>'',
     [],
     js ''            {/* Main Heading */}'',
     js ''            <h1 className="text-5xl md:text-6xl font-bold text-gray-900 leading-tight">'',
     js ''              <span className="text-blue-600">'' @ [0x6276, 0x990A, 0x63A7, 0x9664] @ js ''</span>'',
     js ''              <br />'',
     js ''              <span className="text-gray-800">'' @ [0x81EA, 0x52D5, 0x8A08, 0x7B97, 0x30B7, 0x30B9, 0x30C6, 0x30E0] @ js ''</span>'',
     js ''            </h1>'',
     [],
     js ''            {/* Subtitle */}'',
     js ''            <p className="text-xl md:text-2xl text-gray-600 max-w-3xl mx-auto leading-relaxed">'',
     js ''              '' @ [0x53CE, 0x5165, 0x3068, 0x6276, 0x990A, 0x5BB6, 0x65CF, 0x6570, 0x3092, 0x5165, 0x529B, 0x3059, 0x308B, 0x3060, 0x3051, 0x3067, 0x3001],
     js ''              <span className="text-blue-600 font-semibold">'' @ [0x6700, 0x9069, 0x306A, 0x63A7, 0x9664, 0x984D] @ js ''</span>'',
     js ''              '' @ [0x3092, 0x81EA, 0x52D5, 0x8A08, 0x7B97, 0x3057, 0x307E, 0x3059],
     js ''            </p>'',
     [],
     js ''            {/* '' @ [0x73FE, 0x5728, 0x306E, 0x72B6, 0x614B, 0x8868, 0x793A] @ js '' */}'',
     js ''            <div className="bg-blue-50 rounded-lg p-6 max-w-md mx-auto">'',
     js ''              <div className="space-y-3">'',
     js ''                <div className="flex justify-between items-center">'',
     js ''                  <span className="font-medium text-gray-700">'' @ [0x73FE, 0x5728, 0x306E, 0x53CE, 0x5165] @ js '':</span>'',
     js ''                  <span className="text-2xl font-bold text-blue-600">'',
     js ''                    '' @ [0x00A5] @ js ''{income.toLocaleString()}'',
     js ''                  </span>'',
     js ''                </div>'',
     js ''                <div className="flex justify-between items-center">'',
     js ''                  <span className="font-medium text-gray-700">'' @ [0x6276, 0x990A, 0x5BB6, 0x65CF, 0x6570] @ js '':</span>'',
     js ''                  <span className="text-xl font-semibold text-green-600">'',
     js ''                    {dependentCount}'' @ [0x4EBA],
     js ''                  </span>'',
     js ''                </div>'',
     js ''                <div className="flex justify-between items-center">'',
     js ''                  <span className="font-medium text-gray-700">'' @ [0x63A7, 0x9664, 0x53EF, 0x80FD, 0x984D] @ js '':</span>'',
     js ''                  <span className="text-2xl font-bold text-orange-600">'',
     js ''                    '' @ [0x00A5] @ js ''{remainingLimit.toLocaleString()}'',
     js ''                  </span>'',
     js ''                </div>'',
     js ''              </div>'',
     js ''            </div>'',
     [],
     js ''            {/* CTA Buttons */}'',
     js ''            <div className="flex flex-col sm:flex-row gap-4 justify-center items-center pt-8">'',
     js ''              <Button '',
     js ''                size="lg" '',
     js ''                onClick={handleIncomeUpdate}'',
     js ''                className="bg-blue-600 hover:bg-blue-700 text-white px-8 py-6 text-lg font-semibold shadow-lg hover:shadow-xl transition-all duration-200"'',
     js ''              >'',
     js ''                <TrendingUp className="w-5 h-5 mr-2" />'',
     js ''                '' @ [0x53CE, 0x5165, 0x3092, 0x66F4, 0x65B0],
     js ''                <ArrowRight className="w-5 h-5 ml-2" />'',
     js ''              </Button>'',
     js ''              '',
     js ''              <Button '',
     js ''                variant="outline" '',
     js ''                size="lg"'',
     js ''                onClick={handleDependentAdd}'',
     js ''                className="border-blue-300 text-blue-700 hover:bg-blue-50 px-8 py-6 text-lg font-semibold transition-all duration-200"'',
     js ''              >'',
     js ''                <Users className="w-5 h-5 mr-2" />'',
     js ''                '' @ [0x6276, 0x990A, 0x8005, 0x3092, 0x8FFD, 0x52A0],
     js ''              </Button>'',
     [],
     js ''              <Button '',
     js ''                size="lg"'',
     js ''                onClick={handleCalculate}'',
     js ''                className="bg-green-600 hover:bg-green-700 text-white px-8 py-6 text-lg font-semibold shadow-lg hover:shadow-xl transition-all duration-200"'',
     js ''              >'',
     js ''                <Calculator className="w-5 h-5 mr-2" />'',
     js ''                '' @ [0x518D, 0x8A08, 0x7B97, 0x5B9F, 0x884C],
     js ''              </Button>'',
     js ''            </div>'',
     js ''          </div>'',
     js ''        </div>'',
     js ''      </section>'',
     [],
     js ''      {/* Features Cards Section */}'',
     js ''      <section className="py-20 px-6">'',
     js ''        <div className="container mx-auto">'',
     js ''          <div className="text-center mb-16">'',
     js ''            <h2 className="text-3xl md:text-4xl font-bold text-gray-900 mb-4">'',
     js ''              '' @ [0x306A, 0x305C] @ js ''<span className="text-blue-600">'' @ [0x81EA, 0x52D5, 0x8A08, 0x7B97] @ js ''</span>'' @ [0x306A, 0x306E, 0x304B, 0xFF1F],
     js ''            </h2>'',
     js ''            <p className="text-lg text-gray-600 max-w-2xl mx-auto">'',
     js ''              '' @ [0x8907, 0x96D1, 0x306A, 0x6276, 0x990A, 0x63A7, 0x9664, 0x8A08, 0x7B97, 0x3092, 0x81EA, 0x52D5, 0x5316, 0x3057, 0x3001, 0x6700, 0x9069, 0x306A, 0x7BC0, 0x7A0E, 0x52B9, 0x679C, 0x3092, 0x5B9F, 0x73FE],
     js ''            </p>'',
     js ''          </div>'',
     [],
     js ''          <div className="grid md:grid-cols-2 lg:grid-cols-3 gap-8">'',
     js ''            {/* Feature Card 1 */}'',
     js ''            <Card className="bg-white border border-gray-200 shadow-md hover:shadow-lg transition-shadow duration-200">'',
     js ''              <CardHeader className="text-center pb-4">'',
     js ''                <div className="mx-auto w-12 h-12 bg-blue-100 rounded-lg flex items-center justify-center mb-4">'',
     js ''                  <Calculator className="w-6 h-6 text-blue-600" />'',
     js ''                </div>'',
     js ''                <CardTitle className="text-xl font-semibold text-gray-900">'',
     js ''                  '' @ [0x81EA, 0x52D5, 0x8A08, 0x7B97],
     js ''                </CardTitle>'',
     js ''                <CardDescription className="text-gray-600">'',
     js ''                  '' @ [0x53CE, 0x5165, 0x3068, 0x6276, 0x990A, 0x8005, 0x6570, 0x304B, 0x3089, 0x6700, 0x9069, 0x306A, 0x63A7, 0x9664, 0x984D, 0x3092, 0x81EA, 0x52D5, 0x7B97, 0x51FA],
     js ''                </CardDescription>'',
     js ''              </CardHeader>'',
     js ''              <CardContent>'',
     js ''                <ul className="space-y-2 text-sm text-gray-600">'',
     js ''                  <li className="flex items-center">'',
     js ''                    <div className="w-2 h-2 bg-blue-500 rounded-full mr-3"></div>'',
     js ''                    '' @ [0x30EA, 0x30A2, 0x30EB, 0x30BF, 0x30A4, 0x30E0, 0x8A08, 0x7B97],
     js ''                  </li>'',
     js ''                  <li className="flex items-center">'',
     js ''                    <div className="w-2 h-2 bg-blue-500 rounded-full mr-3"></div>'',
     js ''                    '' @ [0x7A0E, 0x5236, 0x5BFE, 0x5FDC],
     js ''                  </li>'',
     js ''                  <li className="flex items-center">'',
     js ''                    <div className="w-2 h-2 bg-blue-500 rounded-full mr-3"></div>'',
     js ''                    '' @ [0x5C65, 0x6B74, 0x7BA1, 0x7406],
     js ''                  </li>'',
     js ''                </ul>'',
     js ''              </CardContent>'',
     js ''            </Card>'',
     [],
     js ''            {/* Feature Card 2 */}'',
     js ''            <Card className="bg-white border border-gray-200 shadow-md hover:shadow-lg transition-shadow duration-200">'',
     js ''              <CardHeader className="text-center pb-4">'',
     js ''                <div className="mx-auto w-12 h-12 bg-green-100 rounded-lg flex items-center justify-center mb-4">'',
     js ''                  <Shield className="w-6 h-6 text-green-600" />'',
     js ''                </div>'',
     js ''                <CardTitle className="text-xl font-semibold text-gray-900">'',
     js ''                  '' @ [0x30C7, 0x30FC, 0x30BF, 0x4FDD, 0x8B77],
     js ''                </CardTitle>'',
     js ''                <CardDescription className="text-gray-600">'',
     js ''                  '' @ [0x500B, 0x4EBA, 0x60C5, 0x5831, 0x306E, 0x5B89, 0x5168, 0x306A, 0x7BA1, 0x7406, 0x3068, 0x6697, 0x53F7, 0x5316, 0x51E6, 0x7406],
     js ''                </CardDescription>'',
     js ''              </CardHeader>'',
     js ''              <CardContent>'',
     js ''                <ul className="space-y-2 text-sm text-gray-600">'',
     js ''                  <li className="flex items-center">'',
     js ''                    <div className="w-2 h-2 bg-green-500 rounded-full mr-3"></div>'',
     js ''                    '' @ [0x6697, 0x53F7, 0x5316, 0x4FDD, 0x5B58],
     js ''                  </li>'',
     js ''                  <li className="flex items-center">'',
     js ''                    <div className="w-2 h-2 bg-green-500 rounded-full mr-3"></div>'',
     js ''                    GDPR'' @ [0x6E96, 0x62E0],
     js ''                  </li>'',
     js ''                  <li className="flex items-center">'',
     js ''                    <div className="w-2 h-2 bg-green-500 rounded-full mr-3"></div>'',
     js ''                    '' @ [0x76E3, 0x67FB, 0x30ED, 0x30B0],
     js ''                  </li>'',
     js ''                </ul>'',
     js ''              </CardContent>'',
     js ''            </Card>'',
     [],
     js ''            {/* Feature Card 3 */}'',
     js ''            <Card className="bg-white border border-gray-200 shadow-md hover:shadow-lg transition-shadow duration-200">'',
     js ''              <CardHeader className="text-center pb-4">'',
     js ''                <div className="mx-auto w-12 h-12 bg-purple-100 rounded-lg flex items-center justify-center mb-4">'',
     js ''                  <TrendingUp className="w-6 h-6 text-purple-600" />'',
     js ''                </div>'',
     js ''                <CardTitle className="text-xl font-semibold text-gray-900">'',
     js ''                  '' @ [0x6700, 0x9069, 0x5316, 0x63D0, 0x6848],
     js ''                </CardTitle>'',
     js ''                <CardDescription className="text-gray-600">'',
     js ''                  AI'' @ [0x5206, 0x6790, 0x306B, 0x3088, 0x308B, 0x7BC0, 0x7A0E, 0x52B9, 0x679C, 0x306E, 0x6700, 0x5927, 0x5316, 0x63D0, 0x6848],
     js ''                </CardDescription>'',
     js ''              </CardHeader>'',
     js ''              <CardContent>'',
     js ''                <ul className="space-y-2 text-sm text-gray-600">'',
     js ''                  <li className="flex items-center">'',
     js ''                    <div className="w-2 h-2 bg-purple-500 rounded-full mr-3"></div>'',
     js ''                    AI'' @ [0x5206, 0x6790],
     js ''                  </li>'',
     js ''                  <li className="flex items-center">'',
     js ''                    <div className="w-2 h-2 bg-purple-500 rounded-full mr-3"></div>'',
     js ''                    '' @ [0x6700, 0x9069, 0x5316, 0x6848],
     js ''                  </li>'',
     js ''                  <li className="flex items-center">'',
     js ''                    <div className="w-2 h-2 bg-purple-500 rounded-full mr-3"></div>'',
     js ''                    '' @ [0x30B7, 0x30DF, 0x30E5, 0x30EC, 0x30FC, 0x30B7, 0x30E7, 0x30F3],
     js ''                  </li>'',
     js ''                </ul>'',
     js ''              </CardContent>'',
     js ''            </Card>'',
     js ''          </div>'',
     js ''        </div>'',
     js ''      </section>'',
     [],
     js ''      {/* Final CTA Section */}'',
     js ''      <section className="py-20 px-6 bg-white">'',
     js ''        <div className="container mx-auto">'',
     js ''          <Card className="bg-gradient-to-r from-blue-500/10 via-purple-500/10 to-pink-500/10 border-blue-200">'',
     js ''            <CardContent className="p-16 text-center">'',
     js ''              <h3 className="text-3xl md:text-4xl font-bold text-gray-900 mb-4">'',
     js ''                '' @ [0x4ECA, 0x3059, 0x3050] @ js ''<span className="text-blue-600">'' @ [0x6700, 0x9069, 0x5316] @ js ''</span>'' @ [0x3092, 0x59CB, 0x3081, 0x307E, 0x305B, 0x3093, 0x304B, 0xFF1F],
     js ''              </h3>'',
     js ''              <p className="text-lg text-gray-600 mb-8 max-w-2xl mx-auto">'',
     js ''                '' @ [0x6570, 0x5206, 0x3067, 0x6276, 0x990A, 0x63A7, 0x9664, 0x306E, 0x6700, 0x9069, 0x5316, 0x304C, 0x5B8C, 0x4E86, 0x3057, 0x3001, 0x5E74, 0x9593, 0x6570, 0x4E07, 0x5186, 0x306E, 0x7BC0, 0x7A0E, 0x52B9, 0x679C, 0x3092, 0x5B9F, 0x73FE, 0x3067, 0x304D, 0x307E, 0x3059],
     js ''              </p>'',
     js ''              <div className="flex flex-col sm:flex-row gap-4 justify-center">'',
     js ''                <Button '',
     js ''                  size="lg"'',
     js ''                  onClick={handleCalculate}'',
     js ''                  className="bg-blue-600 hover:bg-blue-700 text-white px-12 py-6 text-xl font-semibold shadow-lg hover:shadow-xl transition-all duration-200"'',
     js ''                >'',
     js ''                  <Calculator className="w-6 h-6 mr-2" />'',
     js ''                  '' @ [0x7121, 0x6599, 0x3067, 0x8A08, 0x7B97, 0x958B, 0x59CB],
     js ''                  <ArrowRight className="w-6 h-6 ml-2" />'',
     js ''                </Button>'',
     js ''                <Button '',
     js ''                  variant="outline"'',
     js ''                  size="lg"'',
     js ''                  onClick={() => console.log('' @ [0x0027, 0xD83D, 0xDCCA] @ js '' '' @ [0x8A73, 0x7D30, 0x30AC, 0x30A4, 0x30C9, 0x8868, 0x793A, 0x0027] @ js '')}'',
     js ''                  className="border-blue-300 text-blue-700 hover:bg-blue-50 px-12 py-6 text-xl transition-all duration-200"'',
     js ''                >'',
     js ''                  '' @ [0x8A73, 0x7D30, 0x30AC, 0x30A4, 0x30C9, 0x3092, 0x898B, 0x308B],
     js ''                </Button>'',
     js ''              </div>'',
     js ''              '',
     js ''              <div className="mt-8 text-sm text-gray-500">'',
     js ''                '' @ [0xD83E, 0xDD16] @ js '' '' @ [0x3053, 0x306E] @ js ''UI'' @ [0x306F] @ js '' MATURA AI '' @ [0x306B, 0x3088, 0x3063, 0x3066, 0x81EA, 0x52D5, 0x751F, 0x6210, 0x3055, 0x308C, 0x307E, 0x3057, 0x305F],
     js ''              </div>'',
     js ''            </CardContent>'',
     js ''          </Card>'',
     js ''        </div>'',
     js ''      </section>'',
     js ''    </div>'',
     js ''  )'',
     js ''}''
    ]\<close>

definition generateEnhancedFallbackUI :: jsstring where
  "generateEnhancedFallbackUI = join_lines generateEnhancedFallbackUI_lines"

section \<open>PromptBuilder: buildUIPrompt\<close>

datatype theme = Modern | Minimal | Professional

fun theme_text :: "theme \<Rightarrow> jsstring" where
  "theme_text Modern = js ''modern''"
| "theme_text Minimal = js ''minimal''"
| "theme_text Professional = js ''professional''"

text \<open>\<^verbatim>\<open>UIGenerationOptions\<close>: an optional field that is not given is \<open>None\<close>.\<close>

record UIGenerationOptions =
  appIdea :: jsstring
  theme :: "theme option"
  features :: "jsstring list option"
  options_apiKey :: "jsstring option"

text \<open>
  \<^verbatim>\<open>buildUIPrompt(appIdea, options)\<close>. The destructuring gives \<^verbatim>\<open>theme\<close> and
  \<^verbatim>\<open>features\<close> their defaults (\<open>th\<close> and \<open>feats\<close> below); the template literal
  interpolates the idea and the theme, and nothing reads the features.
\<close>

definition buildUIPrompt :: "jsstring \<Rightarrow> UIGenerationOptions \<Rightarrow> jsstring" where
  \<open>buildUIPrompt idea options =
    (let th = (case theme options of None \<Rightarrow> Modern | Some t \<Rightarrow> t);
         feats = (case features options of None \<Rightarrow> [] | Some f \<Rightarrow> f)
     in join_lines [
     [],
     js ''Generate a complete Next.js 14 App Router React component for the following application idea:'',
     [],
     js ''APPLICATION IDEA: '' @ idea,
     [],
     js ''REQUIREMENTS:'',
     js ''1. Use 'use client' directive'',
     js ''2. Import and use shadcn/ui components: Button, Card, CardContent, CardDescription, CardHeader, CardTitle, Badge'',
     js ''3. Import appropriate Lucide React icons based on the app idea'',
     js ''4. Use Tailwind CSS for styling with '' @ theme_text th @ js '' theme'',
     js ''5. Import useStore from the appropriate store file'',
     [],
     js ''DYNAMIC UI STRUCTURE:'',
     js ''- Analyze the application idea and create appropriate UI sections'',
     js ''- Hero section with compelling headline based on the app'',
     js ''- Display key data/metrics from the store'',
     js ''- Action buttons that match the app's primary functions'',
     js ''- Feature cards showcasing the app's value propositions'',
     js ''- Final CTA section encouraging user engagement'',
     [],
     js ''FUNCTIONALITY:'',
     js ''- Create onClick handlers appropriate to the application'',
     js ''- Integrate with the generated store actions'',
     js ''- Include console.log statements for debugging'',
     js ''- Make API calls to appropriate endpoints'',
     js ''- Display real data from the store'',
     js ''- Include loading states and error handling'',
     [],
     js ''STYLING:'',
     js ''- Use gradient backgrounds and modern CSS'',
     js ''- Responsive design (mobile-first)'',
     js ''- Professional color scheme appropriate to the app'',
     js ''- Hover effects and transitions'',
     js ''- Clean typography'',
     [],
     js ''OUTPUT REQUIREMENTS:'',
     js ''- Return ONLY the complete TypeScript React component code'',
     js ''- Include all imports at the top'',
     js ''- Add JSDoc comments'',
     js ''- Use proper TypeScript types'',
     js ''- Include console.log statements for debugging'',
     js ''- Make it production-ready'',
     js ''- Code should work immediately without modifications'',
     [],
     js ''Generate the complete component now:'',
     []
    ])\<close>

section \<open>GenerationClient: callGeminiAPI\<close>

text \<open>
  A path is the list of its components below the root of the file system; the two
  \<^verbatim>\<open>path.join\<close> calls of the generator each add one plain name.
\<close>

type_synonym path = "jsstring list"

datatype errno = ENOENT | ENOTDIR | EISDIR | EEXIST

text \<open>Every exception the generator's code can raise or receive.\<close>

datatype error =
    GeminiAPIError nat
  | EmptyResponse
  | FetchFailed
  | JsonParseError
  | TypeError
  | GeneratedFileNotFound path
  | FsError errno path

text \<open>
  The instance: \<^verbatim>\<open>projectRoot\<close> and the key read once from the environment. The
  constructor's \<^verbatim>\<open>process.env.GEMINI_API_KEY || null\<close> turns an unset and an empty
  variable into \<^verbatim>\<open>null\<close>.
\<close>

record UIGenerator =
  projectRoot :: path
  apiKey :: "jsstring option"

record process =
  cwd :: path
  env_GEMINI_API_KEY :: "jsstring option"

definition new_UIGenerator :: "process \<Rightarrow> path option \<Rightarrow> UIGenerator" where
  "new_UIGenerator proc rootDir =
     \<lparr>projectRoot = (case rootDir of None \<Rightarrow> cwd proc | Some r \<Rightarrow> r),
      apiKey = (case env_GEMINI_API_KEY proc of
                  None \<Rightarrow> None
                | Some k \<Rightarrow> if k = [] then None else Some k)\<rparr>"

text \<open>The request \<^verbatim>\<open>fetch\<close> sends: the URL carries the key, the body the prompt.\<close>

record generationConfig =
  temperature :: real
  maxOutputTokens :: nat
  topP :: real
  topK :: nat

record request =
  url :: jsstring
  http_method :: jsstring
  content_type :: jsstring
  contents_parts_text :: jsstring
  config :: generationConfig

definition gemini_request :: "jsstring \<Rightarrow> jsstring \<Rightarrow> request" where
  "gemini_request key prompt =
     \<lparr>url = js ''https://generativelanguage.googleapis.com/v1beta/models/gemini-1.5-flash:generateContent?key='' @ key,
      http_method = js ''POST'',
      content_type = js ''application/json'',
      contents_parts_text = prompt,
      config = \<lparr>temperature = 3 / 10, maxOutputTokens = 8192, topP = 8 / 10, topK = 10\<rparr>\<rparr>"

text \<open>
  What the service can answer. \<open>js_value\<close> is the value of
  \<^verbatim>\<open>data.candidates?.[0]?.content?.parts?.[0]?.text\<close>: undefined when a link of the chain
  is missing, a string, or a value of another type (falsy or truthy). The parsed body is
  unparseable (\<^verbatim>\<open>response.json()\<close> rejects), \<^verbatim>\<open>null\<close> (reading
  \<^verbatim>\<open>data.candidates\<close> throws), or a value with that text field.
\<close>

datatype js_value = Undefined | StringValue jsstring | OtherFalsy | OtherTruthy

datatype response_json = Unparseable | NullData | Data js_value

datatype fetch_result = Rejected | Response bool nat response_json

type_synonym network = "request \<Rightarrow> fetch_result"

text \<open>A service that cannot be reached: every \<^verbatim>\<open>fetch\<close> rejects.\<close>

definition unreachable :: network where
  "unreachable r = Rejected"

fun truthy :: "js_value \<Rightarrow> bool" where
  "truthy Undefined = False"
| "truthy (StringValue s) = (s \<noteq> [])"
| "truthy OtherFalsy = False"
| "truthy OtherTruthy = True"

text \<open>
  The body of the \<^verbatim>\<open>try\<close> block of \<^verbatim>\<open>callGeminiAPI\<close>. Calling
  \<^verbatim>\<open>extractCodeFromResponse\<close> on a value that is not a string throws a TypeError
  (it has no \<^verbatim>\<open>match\<close> method).
\<close>

definition callGeminiAPI_try :: "network \<Rightarrow> jsstring \<Rightarrow> jsstring \<Rightarrow> error + jsstring" where
  "callGeminiAPI_try net key prompt =
     (case net (gemini_request key prompt) of
        Rejected \<Rightarrow> Inl FetchFailed
      | Response ok status body \<Rightarrow>
          if \<not> ok then Inl (GeminiAPIError status)
          else (case body of
                  Unparseable \<Rightarrow> Inl JsonParseError
                | NullData \<Rightarrow> Inl TypeError
                | Data v \<Rightarrow>
                    (let generatedContent = (if truthy v then v else StringValue [])
                     in if \<not> truthy generatedContent then Inl EmptyResponse
                        else (case generatedContent of
                                StringValue s \<Rightarrow> Inr (extractCodeFromResponse s)
                              | _ \<Rightarrow> Inl TypeError))))"

text \<open>
  \<^verbatim>\<open>callGeminiAPI(prompt)\<close>: the outcome (an exception or the source text) and the
  requests sent. The \<^verbatim>\<open>catch\<close> clause replaces every exception of the block by the
  fallback template.
\<close>

definition callGeminiAPI :: "UIGenerator \<Rightarrow> network \<Rightarrow> jsstring \<Rightarrow> (error + jsstring) \<times> request list" where
  "callGeminiAPI this net prompt =
     (case apiKey this of
        None \<Rightarrow> (Inr generateEnhancedFallbackUI, [])
      | Some key \<Rightarrow>
          if key = [] then (Inr generateEnhancedFallbackUI, [])
          else (case callGeminiAPI_try net key prompt of
                  Inl e \<Rightarrow> (Inr generateEnhancedFallbackUI, [gemini_request key prompt])
                | Inr code \<Rightarrow> (Inr code, [gemini_request key prompt])))"

section \<open>The file system\<close>

text \<open>
  The file system maps a path to a file with its content or to a directory; the root
  (the empty path) is a directory. The content of a file is the string that reading the
  file as UTF-8 gives. Read and write permissions are not modelled: an operation fails
  only for the shape of the tree.
\<close>

datatype node = File jsstring | Directory

type_synonym filesystem = "path \<rightharpoonup> node"

definition lookup :: "filesystem \<Rightarrow> path \<Rightarrow> node option" where
  "lookup fs p = (if p = [] then Some Directory else fs p)"

definition join :: "path \<Rightarrow> jsstring \<Rightarrow> path" where
  "join p name = p @ [name]"

definition existsSync :: "filesystem \<Rightarrow> path \<Rightarrow> bool" where
  "existsSync fs p = (lookup fs p \<noteq> None)"

text \<open>
  \<^verbatim>\<open>mkdirSync(p, { recursive: true })\<close> walks down from the root (\<open>walked\<close> is the part
  behind): a directory on the way is kept, a missing one is created, a file stops
  the call with an error that names the path the call was given.
\<close>

fun mkdir_from :: "filesystem \<Rightarrow> path \<Rightarrow> jsstring list \<Rightarrow> error + filesystem" where
  "mkdir_from fs walked [] = Inr fs"
| "mkdir_from fs walked (c # cs) =
     (case lookup fs (walked @ [c]) of
        Some (File x) \<Rightarrow> Inl (FsError (if cs = [] then EEXIST else ENOTDIR) (walked @ c # cs))
      | Some Directory \<Rightarrow> mkdir_from fs (walked @ [c]) cs
      | None \<Rightarrow> mkdir_from (fs(walked @ [c] \<mapsto> Directory)) (walked @ [c]) cs)"

definition mkdirSync :: "filesystem \<Rightarrow> path \<Rightarrow> error + filesystem" where
  "mkdirSync fs p = mkdir_from fs [] p"

text \<open>
  Writing a string as UTF-8 keeps every code unit but a surrogate that is not part of a
  pair (a high surrogate directly followed by a low one): such a lone surrogate is written
  as U+FFFD. \<open>utf8_written\<close> is the string the file holds afterwards, and a string is
  \<open>well_formed\<close> when it has no lone surrogate.
\<close>

definition is_high_surrogate :: "jschar \<Rightarrow> bool" where
  "is_high_surrogate c \<longleftrightarrow> 0xD800 \<le> c \<and> c \<le> 0xDBFF"

definition is_low_surrogate :: "jschar \<Rightarrow> bool" where
  "is_low_surrogate c \<longleftrightarrow> 0xDC00 \<le> c \<and> c \<le> 0xDFFF"

definition replace_lone :: "jschar \<Rightarrow> jschar" where
  "replace_lone c = (if is_high_surrogate c \<or> is_low_surrogate c then 0xFFFD else c)"

fun utf8_written :: "jsstring \<Rightarrow> jsstring" where
  "utf8_written [] = []"
| "utf8_written [c] = [replace_lone c]"
| "utf8_written (c # d # cs) =
     (if is_high_surrogate c \<and> is_low_surrogate d then c # d # utf8_written cs
      else replace_lone c # utf8_written (d # cs))"

fun well_formed :: "jsstring \<Rightarrow> bool" where
  "well_formed [] = True"
| "well_formed [c] = (\<not> is_high_surrogate c \<and> \<not> is_low_surrogate c)"
| "well_formed (c # d # cs) =
     (if is_high_surrogate c \<and> is_low_surrogate d then well_formed cs
      else \<not> is_high_surrogate c \<and> \<not> is_low_surrogate c \<and> well_formed (d # cs))"

text \<open>
  \<^verbatim>\<open>writeFileSync(p, data, 'utf8')\<close> creates or truncates the file: the parent has to be
  a directory and the path itself must not be one.
\<close>

definition writeFileSync :: "filesystem \<Rightarrow> path \<Rightarrow> jsstring \<Rightarrow> error + filesystem" where
  "writeFileSync fs p data =
     (if p = [] then Inl (FsError EISDIR p)
      else (case lookup fs (butlast p) of
              None \<Rightarrow> Inl (FsError ENOENT p)
            | Some (File x) \<Rightarrow> Inl (FsError ENOTDIR p)
            | Some Directory \<Rightarrow>
                (case lookup fs p of
                   Some Directory \<Rightarrow> Inl (FsError EISDIR p)
                 | _ \<Rightarrow> Inr (fs(p \<mapsto> File (utf8_written data))))))"

definition readFileSync :: "filesystem \<Rightarrow> path \<Rightarrow> error + jsstring" where
  "readFileSync fs p =
     (case lookup fs p of
        None \<Rightarrow> Inl (FsError ENOENT p)
      | Some Directory \<Rightarrow> Inl (FsError EISDIR p)
      | Some (File content) \<Rightarrow> Inr content)"

section \<open>ArtifactWriter: saveGeneratedUI\<close>

text \<open>
  \<^verbatim>\<open>saveGeneratedUI(code)\<close>: the outcome (an exception or the output path) and the file
  system it leaves. It catches nothing, so an error of \<^verbatim>\<open>mkdirSync\<close> or
  \<^verbatim>\<open>writeFileSync\<close> is its own outcome.
\<close>

definition saveGeneratedUI :: "UIGenerator \<Rightarrow> filesystem \<Rightarrow> jsstring \<Rightarrow> (error + path) \<times> filesystem" where
  "saveGeneratedUI this fs code =
     (let outputDir = join (projectRoot this) (js ''app'');
          outputPath = join outputDir (js ''GeneratedUI.tsx'')
      in (case (if \<not> existsSync fs outputDir then mkdirSync fs outputDir else Inr fs) of
            Inl e \<Rightarrow> (Inl e, fs)
          | Inr fs1 \<Rightarrow>
              (case writeFileSync fs1 outputPath code of
                 Inl e \<Rightarrow> (Inl e, fs1)
               | Inr fs2 \<Rightarrow> (Inr outputPath, fs2))))"

section \<open>ArtifactValidator: validateGeneratedUI\<close>

definition requiredElements :: "jsstring list" where
  "requiredElements =
     [[0x27] @ js ''use client'' @ [0x27],
      js ''export default function GeneratedUI'',
      js ''useFuyouStore'',
      js ''onClick'',
      js ''console.log'']"

definition missingElements :: "jsstring \<Rightarrow> jsstring list" where
  "missingElements content = filter (\<lambda>element. \<not> String_includes content element) requiredElements"

text \<open>The body of the \<^verbatim>\<open>try\<close> block of \<^verbatim>\<open>validateGeneratedUI\<close>.\<close>

definition validateGeneratedUI_try :: "filesystem \<Rightarrow> path \<Rightarrow> error + bool" where
  "validateGeneratedUI_try fs filePath =
     (if \<not> existsSync fs filePath then Inl (GeneratedFileNotFound filePath)
      else (case readFileSync fs filePath of
              Inl e \<Rightarrow> Inl e
            | Inr content \<Rightarrow> Inr (length (missingElements content) = 0)))"

text \<open>
  \<^verbatim>\<open>validateGeneratedUI(filePath)\<close>: the outcome and the file system it leaves. The
  \<^verbatim>\<open>catch\<close> clause turns every exception of the block into \<^verbatim>\<open>false\<close>.
\<close>

definition validateGeneratedUI :: "filesystem \<Rightarrow> path \<Rightarrow> (error + bool) \<times> filesystem" where
  "validateGeneratedUI fs filePath =
     (case validateGeneratedUI_try fs filePath of
        Inl e \<Rightarrow> (Inr False, fs)
      | Inr passed \<Rightarrow> (Inr passed, fs))"

section \<open>Orchestrator: generateUI\<close>

text \<open>
  \<^verbatim>\<open>generateUI(options)\<close>: the outcome, the file system it leaves and the requests
  sent. The \<^verbatim>\<open>catch\<close> clause logs the exception and throws it again.
\<close>

definition generateUI :: "UIGenerator \<Rightarrow> network \<Rightarrow> filesystem \<Rightarrow> UIGenerationOptions
    \<Rightarrow> (error + path) \<times> filesystem \<times> request list" where
  "generateUI this net fs options =
     (let prompt = buildUIPrompt (appIdea options) options
      in (case callGeminiAPI this net prompt of
            (Inl e, reqs) \<Rightarrow> (Inl e, fs, reqs)
          | (Inr generatedCode, reqs) \<Rightarrow>
              (case saveGeneratedUI this fs generatedCode of
                 (Inl e, fs') \<Rightarrow> (Inl e, fs', reqs)
               | (Inr outputPath, fs') \<Rightarrow> (Inr outputPath, fs', reqs))))"

text \<open>The exported function builds an instance on the current directory first.\<close>

definition export_generateUI :: "process \<Rightarrow> network \<Rightarrow> filesystem \<Rightarrow> UIGenerationOptions
    \<Rightarrow> (error + path) \<times> filesystem \<times> request list" where
  "export_generateUI proc net fs options = generateUI (new_UIGenerator proc None) net fs options"

section \<open>The extractor: auxiliary facts\<close>

lemma String_includes_iff_sublist: "String_includes s m \<longleftrightarrow> sublist m s"
  by (induction s) (auto simp: sublist_Cons_right)

lemma is_js_whitespace_NL: "is_js_whitespace NL"
  by (simp add: is_js_whitespace_def NL_def)

lemma trim_snoc_whitespace:
  assumes "is_js_whitespace c"
  shows "trim (s @ [c]) = trim s"
proof (cases "\<forall>x \<in> set s. is_js_whitespace x")
  case True
  then have e: "dropWhile is_js_whitespace s = []"
    by simp
  from True assms have "dropWhile is_js_whitespace (s @ [c]) = []"
    by simp
  then show ?thesis
    unfolding trim_def by (simp only: e)
next
  case False
  then have "dropWhile is_js_whitespace (s @ [c]) = dropWhile is_js_whitespace s @ [c]"
    by (auto simp: dropWhile_append1)
  with assms show ?thesis by (simp add: trim_def)
qed

lemma openFence_at_None: "\<not> prefix fence s \<Longrightarrow> openFence_at s = None"
  by (simp add: openFence_at_def)

lemma replace_openFence_Nil: "replace_openFence [] = []"
  by (simp add: replace_openFence.simps openFence_at_def fence_def)

lemma replace_openFence_Cons:
  "\<not> prefix fence (c # cs) \<Longrightarrow> replace_openFence (c # cs) = c # replace_openFence cs"
  by (subst replace_openFence.simps) (simp add: openFence_at_None)

lemma replace_openFence_match:
  "openFence_at s = Some r \<Longrightarrow> replace_openFence s = replace_openFence r"
  by (subst replace_openFence.simps) simp

lemma openFence_at_tag:
  assumes "t \<in> set (tags @ [[]])"
  shows "openFence_at (fence @ t @ NL # u) = Some u"
  using assms
  by (auto simp: openFence_at_def tags_def js_def fence_def NL_def BT_def Let_def)

lemma openFence_at_fence: "openFence_at fence = Some []"
  by (simp add: openFence_at_def tags_def js_def fence_def Let_def)

lemma replace_openFence_body:
  "\<not> sublist fence g \<Longrightarrow> replace_openFence (g @ NL # fence) = g @ [NL]"
proof (induction g)
  case Nil
  have "\<not> prefix fence (NL # fence)"
    by (simp add: fence_def NL_def BT_def)
  then show ?case
    by (simp add: replace_openFence_Cons replace_openFence_match [OF openFence_at_fence] replace_openFence_Nil)
next
  case (Cons c g)
  from Cons.prems have ng: "\<not> sublist fence g" and np: "\<not> prefix fence (c # g)"
    by (auto simp: sublist_Cons_right)
  have "\<not> prefix fence ((c # g) @ NL # fence)"
  proof
    assume p: "prefix fence ((c # g) @ NL # fence)"
    show False
    proof (cases "length (c # g) \<ge> 3")
      case True
      with p have "prefix fence (c # g)"
        by (auto simp: prefix_append fence_def prefix_def append_eq_append_conv2 append_eq_Cons_conv Cons_eq_append_conv)
      with np show False by simp
    next
      case False
      then have "length g < 2" by simp
      then consider "g = []" | x where "g = [x]"
        by (cases g) (auto simp: less_Suc_eq length_Suc_conv)
      then show False
        using p by cases (auto simp: fence_def NL_def BT_def)
    qed
  qed
  then show ?case
    using Cons.IH [OF ng] by (simp add: replace_openFence_Cons)
qed

lemma replace_closeFence_snoc_NL: "replace_closeFence (g @ [NL]) = g @ [NL]"
  by (auto simp: replace_closeFence_def suffix_def fence_def NL_def BT_def append_eq_append_conv2 Cons_eq_append_conv append_eq_Cons_conv)

lemma regex_match_all_head:
  "regex_match_all s = (m, g) # ms \<Longrightarrow>
     \<exists>t \<in> set (tags @ [[]]). m = fence @ t @ [NL] @ g @ [NL] @ fence"
proof (induction s rule: regex_match_all.induct)
  case (1 s)
  show ?case
  proof (cases "codeBlockRegex_at s")
    case None
    with "1.prems" obtain c cs where s: "s = c # cs" and r: "regex_match_all cs = (m, g) # ms"
      by (subst (asm) regex_match_all.simps) (auto split: list.splits)
    from "1.IH"(1) [OF None s r] show ?thesis .
  next
    case (Some a)
    obtain m' g' r where a: "a = (m', g', r)"
      by (cases a)
    from "1.prems" Some a have "m' = m" "g' = g"
      by (subst (asm) regex_match_all.simps, simp)+
    with Some a have "codeBlockRegex_at s = Some (m, g, r)"
      by simp
    from codeBlockRegex_at_Some [OF this] show ?thesis
      by blast
  qed
qed

lemma extract_first_match:
  assumes "regex_match_all s = (m, g) # ms" and "\<not> sublist fence g"
  shows "extractCodeFromResponse s = trim g"
proof -
  from regex_match_all_head [OF assms(1)] obtain t
    where t: "t \<in> set (tags @ [[]])" and m: "m = fence @ t @ [NL] @ g @ [NL] @ fence"
    by blast
  have "replace_openFence m = replace_openFence (g @ NL # fence)"
    unfolding m using replace_openFence_match [OF openFence_at_tag [OF t]] by simp
  also have "\<dots> = g @ [NL]"
    by (rule replace_openFence_body [OF assms(2)])
  finally have "replace_openFence m = g @ [NL]" .
  then have "trim (replace_closeFence (replace_openFence m)) = trim g"
    by (simp add: replace_closeFence_snoc_NL trim_snoc_whitespace is_js_whitespace_NL)
  with assms(1) show ?thesis
    by (simp add: extractCodeFromResponse_def String_match_def)
qed

lemma extract_no_match:
  "regex_match_all s = [] \<Longrightarrow> extractCodeFromResponse s = trim s"
  by (simp add: extractCodeFromResponse_def String_match_def)

lemma lazy_until_close_consumes:
  "lazy_until_close s = Some (g, r) \<Longrightarrow> s = g @ NL # fence @ r"
proof (induction s arbitrary: g)
  case Nil
  then show ?case by simp
next
  case (Cons c cs)
  show ?case
  proof (cases "prefix (NL # fence) (c # cs)")
    case True
    with Cons.prems have "g = []" "r = drop 4 (c # cs)"
      by simp_all
    with True show ?thesis
      by (auto simp: prefix_def fence_def)
  next
    case False
    with Cons.prems obtain g' where "lazy_until_close cs = Some (g', r)" "g = c # g'"
      by (auto split: option.splits)
    with Cons.IH [of g'] show ?thesis
      by simp
  qed
qed

text \<open>The matched substring is the part of the text the expression consumed.\<close>

lemma codeBlockRegex_at_consumes:
  assumes "codeBlockRegex_at s = Some (m, g, r)"
  shows "s = m @ r"
proof -
  from codeBlockRegex_at_Some [OF assms] obtain t
    where p: "prefix (fence @ t @ [NL]) s"
      and l: "lazy_until_close (drop (length t + 4) s) = Some (g, r)"
      and m: "m = fence @ t @ [NL] @ g @ [NL] @ fence"
    by blast
  from p obtain u where s: "s = (fence @ t @ [NL]) @ u"
    by (auto simp: prefix_def)
  have "length (fence @ t @ [NL]) = length t + 4"
    by (simp add: fence_def)
  then have "drop (length t + 4) s = u"
    unfolding s by (metis append_eq_conv_conj)
  with l have "u = g @ NL # fence @ r"
    by (simp add: lazy_until_close_consumes)
  with s m show ?thesis
    by simp
qed

lemma codeBlockRegex_at_None: "\<not> prefix fence s \<Longrightarrow> codeBlockRegex_at s = None"
  by (simp add: codeBlockRegex_at_def)

lemma regex_match_all_Nil: "regex_match_all [] = []"
  by (subst regex_match_all.simps) (simp add: codeBlockRegex_at_def fence_def)

lemma regex_match_all_skip:
  "codeBlockRegex_at (c # cs) = None \<Longrightarrow> regex_match_all (c # cs) = regex_match_all cs"
  by (subst regex_match_all.simps) simp

lemma regex_match_all_hit:
  "codeBlockRegex_at s = Some (m, g, r) \<Longrightarrow> regex_match_all s = (m, g) # regex_match_all r"
  by (subst regex_match_all.simps) simp

lemma regex_match_all_no_fence: "\<not> sublist fence s \<Longrightarrow> regex_match_all s = []"
proof (induction s)
  case Nil
  show ?case by (rule regex_match_all_Nil)
next
  case (Cons c cs)
  then have "\<not> prefix fence (c # cs)" "\<not> sublist fence cs"
    by (auto simp: sublist_Cons_right)
  with Cons.IH show ?case
    by (simp add: regex_match_all_skip codeBlockRegex_at_None)
qed

text \<open>A text without a fence, followed by a newline, does not start with a fence.\<close>

lemma no_fence_prefix:
  assumes "\<not> sublist fence g"
  shows "\<not> prefix fence (g @ NL # w)"
proof
  assume p: "prefix fence (g @ NL # w)"
  show False
  proof (cases "length g \<ge> 3")
    case True
    with p have "prefix fence g"
      by (auto simp: fence_def prefix_def append_eq_append_conv2 append_eq_Cons_conv Cons_eq_append_conv)
    with assms show False by auto
  next
    case False
    then consider "g = []" | x where "g = [x]" | x y where "g = [x, y]"
      by (cases g rule: list.exhaust; cases "tl g"; cases "tl (tl g)") auto
    then show False
      using p by cases (auto simp: fence_def NL_def BT_def)
  qed
qed

lemma lazy_until_close_body:
  "\<not> sublist fence g \<Longrightarrow> lazy_until_close (g @ NL # fence @ post) = Some (g, post)"
proof (induction g)
  case Nil
  show ?case by (simp add: fence_def)
next
  case (Cons c g)
  then have ng: "\<not> sublist fence g"
    by (auto simp: sublist_Cons_right)
  have "\<not> prefix (NL # fence) ((c # g) @ NL # fence @ post)"
    using no_fence_prefix [OF ng, of "fence @ post"] by simp
  with Cons.IH [OF ng] show ?case by simp
qed

lemma codeBlockRegex_at_block:
  assumes "t \<in> set (tags @ [[]])" and "\<not> sublist fence g"
  shows "codeBlockRegex_at (fence @ t @ NL # g @ NL # fence @ post)
           = Some (fence @ t @ [NL] @ g @ [NL] @ fence, g, post)"
proof -
  have d: "drop 3 (fence @ t @ NL # g @ NL # fence @ post) = t @ NL # g @ NL # fence @ post"
    by (simp add: fence_def)
  have "first_some (match_after_tag (t @ NL # g @ NL # fence @ post)) (tags @ [[]]) = Some (t, g, post)"
    using assms(1) lazy_until_close_body [OF assms(2), of post]
    by (auto simp: tags_def js_def match_after_tag_def NL_def)
  moreover have "prefix fence (fence @ t @ NL # g @ NL # fence @ post)"
    by simp
  ultimately show ?thesis
    unfolding codeBlockRegex_at_def d by simp
qed

lemma codeBlockRegex_at_before_block:
  assumes "\<not> sublist fence (c # pre)" and "t \<in> set (tags @ [[]])"
  shows "codeBlockRegex_at (c # pre @ fence @ t @ NL # w) = None"
proof (cases "prefix fence (c # pre @ fence @ t @ NL # w)")
  case False
  then show ?thesis by (rule codeBlockRegex_at_None)
next
  case True
  have "length (c # pre) < 3"
  proof (rule ccontr)
    assume "\<not> length (c # pre) < 3"
    with True have "prefix fence (c # pre)"
      by (auto simp: fence_def prefix_def append_eq_append_conv2 append_eq_Cons_conv Cons_eq_append_conv)
    with assms(1) show False by auto
  qed
  then consider "pre = []" | x where "pre = [x]"
    by (cases pre rule: list.exhaust; cases "tl pre") auto
  then show ?thesis
  proof cases
    case 1
    with True have "c = BT" by (simp add: fence_def)
    with 1 assms(2) show ?thesis
      by (auto simp: codeBlockRegex_at_def match_after_tag_def tags_def js_def fence_def NL_def BT_def)
  next
    case 2
    with True have "c = BT" "x = BT" by (simp_all add: fence_def)
    with 2 assms(2) show ?thesis
      by (auto simp: codeBlockRegex_at_def match_after_tag_def tags_def js_def fence_def NL_def BT_def)
  qed
qed

lemma regex_match_all_before_block:
  "\<not> sublist fence pre \<Longrightarrow> t \<in> set (tags @ [[]]) \<Longrightarrow>
     regex_match_all (pre @ fence @ t @ NL # w) = regex_match_all (fence @ t @ NL # w)"
proof (induction pre)
  case Nil
  show ?case by simp
next
  case (Cons c pre)
  then have ng: "\<not> sublist fence pre"
    by (auto simp: sublist_Cons_right)
  have "regex_match_all ((c # pre) @ fence @ t @ NL # w) = regex_match_all (pre @ fence @ t @ NL # w)"
    using regex_match_all_skip [OF codeBlockRegex_at_before_block [OF Cons.prems]] by simp
  with Cons.IH [OF ng Cons.prems(2)] show ?case by simp
qed

lemma regex_match_all_one_block:
  assumes "\<not> sublist fence pre" "\<not> sublist fence g" "\<not> sublist fence post" "t \<in> set (tags @ [[]])"
  shows "regex_match_all (pre @ fence @ t @ NL # g @ NL # fence @ post)
           = [(fence @ t @ [NL] @ g @ [NL] @ fence, g)]"
  by (simp add: regex_match_all_before_block [OF assms(1,4)]
      regex_match_all_hit [OF codeBlockRegex_at_block [OF assms(4,2)]]
      regex_match_all_no_fence [OF assms(3)])

lemma extract_tsx_example:
  "extractCodeFromResponse (js ''```tsx'' @ [NL] @ js ''const x = 1'' @ [NL] @ js ''```'') = js ''const x = 1''"
  by code_simp

section \<open>The second replacement never applies\<close>

text \<open>
  After the first replacement no triple backtick is left, so the expression
  \<^verbatim>\<open>/\n```$/\<close> of the second replacement finds nothing: the clean-up of a match is
  the first replacement alone.
\<close>

lemma openFence_at_prefix: "prefix fence s \<Longrightarrow> \<exists>r. openFence_at s = Some r"
  by (simp add: openFence_at_def Let_def)

lemma replace_openFence_two_backticks:
  assumes "\<not> prefix [BT, BT] s"
  shows "\<not> prefix [BT, BT] (replace_openFence s)"
proof (cases s)
  case Nil
  then show ?thesis
    by (simp add: replace_openFence_Nil)
next
  case (Cons x u)
  note s = Cons
  show ?thesis
  proof (cases u)
    case Nil
    with s show ?thesis
      by (simp add: replace_openFence_Cons replace_openFence_Nil fence_def)
  next
    case (Cons y r)
    with s assms have n: "\<not> (x = BT \<and> y = BT)"
      by auto
    then have "\<not> prefix fence (x # y # r)"
      by (auto simp: fence_def)
    then have e: "replace_openFence (x # y # r) = x # replace_openFence (y # r)"
      by (rule replace_openFence_Cons)
    show ?thesis
    proof (cases "x = BT")
      case False
      with e s Cons show ?thesis
        by simp
    next
      case True
      with n have "y \<noteq> BT"
        by simp
      then have "\<not> prefix fence (y # r)"
        by (simp add: fence_def)
      then have "replace_openFence (y # r) = y # replace_openFence r"
        by (rule replace_openFence_Cons)
      with e s Cons \<open>y \<noteq> BT\<close> show ?thesis
        by simp
    qed
  qed
qed

lemma replace_openFence_no_fence: "\<not> sublist fence (replace_openFence s)"
proof (induction s rule: replace_openFence.induct)
  case (1 s)
  show ?case
  proof (cases "openFence_at s")
    case (Some r)
    with "1.IH"(2) [OF Some] show ?thesis
      by (simp add: replace_openFence_match)
  next
    case None
    show ?thesis
    proof (cases s)
      case Nil
      then show ?thesis
        by (simp add: replace_openFence_Nil fence_def)
    next
      case (Cons c cs)
      from None Cons have np: "\<not> prefix fence (c # cs)"
        using openFence_at_prefix [of s] by auto
      then have e: "replace_openFence (c # cs) = c # replace_openFence cs"
        by (rule replace_openFence_Cons)
      have "\<not> prefix fence (c # replace_openFence cs)"
      proof
        assume p: "prefix fence (c # replace_openFence cs)"
        then have c: "c = BT" and "prefix [BT, BT] (replace_openFence cs)"
          by (simp_all add: fence_def)
        with replace_openFence_two_backticks [of cs] have "prefix [BT, BT] cs"
          by blast
        with c have "prefix fence (c # cs)"
          by (simp add: fence_def)
        with np show False ..
      qed
      with "1.IH"(1) [OF None Cons] e Cons show ?thesis
        by (simp add: sublist_Cons_right)
    qed
  qed
qed

lemma replace_closeFence_after_openFence:
  "replace_closeFence (replace_openFence s) = replace_openFence s"
proof -
  have "\<not> suffix (NL # fence) (replace_openFence s)"
  proof
    assume "suffix (NL # fence) (replace_openFence s)"
    then have "sublist (NL # fence) (replace_openFence s)"
      by (rule suffix_imp_sublist)
    then have "sublist fence (replace_openFence s)"
      by (metis sublist_Cons_right sublist_order.order.trans sublist_order.order.refl)
    with replace_openFence_no_fence show False ..
  qed
  then show ?thesis
    by (simp add: replace_closeFence_def)
qed

section \<open>C2: one fenced block, no fenced block, the end-to-end example\<close>

text \<open>
  C2, as stated, fails: the clean-up deletes every fence marker of the matched text, also
  one inside the block. The text of a backtick fence, a newline, \<^verbatim>\<open>a```b\<close>, a newline
  and a backtick fence is matched once, with the content \<^verbatim>\<open>a```b\<close>, and the function
  returns \<^verbatim>\<open>ab\<close>.
\<close>

theorem extractCodeFromResponse_inner_fence_counterexample:
  "regex_match_all (js ''```'' @ [NL] @ js ''a```b'' @ [NL] @ js ''```'')
     = [(js ''```'' @ [NL] @ js ''a```b'' @ [NL] @ js ''```'', js ''a```b'')]
   \<and> extractCodeFromResponse (js ''```'' @ [NL] @ js ''a```b'' @ [NL] @ js ''```'') = js ''ab''
   \<and> trim (js ''a```b'') = js ''a```b''
   \<and> js ''ab'' \<noteq> js ''a```b''"
  by code_simp

text \<open>
  C2, amended: when the expression matches exactly once and the content of the block
  holds no triple backtick, \<open>extractCodeFromResponse\<close> returns the content trimmed.
  This covers every text \<open>pre\<close>, fence, tag (\<^verbatim>\<open>typescript\<close>, \<^verbatim>\<open>tsx\<close>,
  \<^verbatim>\<open>ts\<close> or none), newline, content, newline, fence, \<open>post\<close> in which neither
  \<open>pre\<close>, the content nor \<open>post\<close> holds a triple backtick. When the expression does not
  match (in particular when the text holds no triple backtick) the result is the whole
  text trimmed. On the end-to-end example the result is \<^verbatim>\<open>const x = 1\<close>.
\<close>

theorem extractCodeFromResponse_one_block:
  "(regex_match_all response = [(m, g)] \<and> \<not> String_includes g fence
      \<longrightarrow> extractCodeFromResponse response = trim g)
   \<and> (t \<in> set (tags @ [[]]) \<and> \<not> String_includes pre fence \<and> \<not> String_includes g fence
        \<and> \<not> String_includes post fence
      \<longrightarrow> regex_match_all (pre @ fence @ t @ [NL] @ g @ [NL] @ fence @ post)
            = [(fence @ t @ [NL] @ g @ [NL] @ fence, g)]
          \<and> extractCodeFromResponse (pre @ fence @ t @ [NL] @ g @ [NL] @ fence @ post) = trim g)
   \<and> (regex_match_all response = [] \<longrightarrow> extractCodeFromResponse response = trim response)
   \<and> (\<not> String_includes response fence \<longrightarrow> extractCodeFromResponse response = trim response)
   \<and> extractCodeFromResponse (js ''```tsx'' @ [NL] @ js ''const x = 1'' @ [NL] @ js ''```'')
       = js ''const x = 1''"
proof (intro conjI impI)
  assume "regex_match_all response = [(m, g)] \<and> \<not> String_includes g fence"
  then show "extractCodeFromResponse response = trim g"
    by (auto simp: String_includes_iff_sublist intro: extract_first_match)
next
  assume a: "t \<in> set (tags @ [[]]) \<and> \<not> String_includes pre fence \<and> \<not> String_includes g fence
    \<and> \<not> String_includes post fence"
  then have r: "regex_match_all (pre @ fence @ t @ NL # g @ NL # fence @ post)
      = [(fence @ t @ [NL] @ g @ [NL] @ fence, g)]"
    by (intro regex_match_all_one_block) (simp_all add: String_includes_iff_sublist)
  then show "regex_match_all (pre @ fence @ t @ [NL] @ g @ [NL] @ fence @ post)
      = [(fence @ t @ [NL] @ g @ [NL] @ fence, g)]"
    by simp
  from a have "\<not> sublist fence g"
    by (simp add: String_includes_iff_sublist)
  from extract_first_match [OF r this]
  show "extractCodeFromResponse (pre @ fence @ t @ [NL] @ g @ [NL] @ fence @ post) = trim g"
    by simp
next
  assume "regex_match_all response = []"
  then show "extractCodeFromResponse response = trim response"
    by (rule extract_no_match)
next
  assume "\<not> String_includes response fence"
  then show "extractCodeFromResponse response = trim response"
    by (simp add: String_includes_iff_sublist regex_match_all_no_fence extract_no_match)
next
  show "extractCodeFromResponse (js ''```tsx'' @ [NL] @ js ''const x = 1'' @ [NL] @ js ''```'')
      = js ''const x = 1''"
    by (rule extract_tsx_example)
qed

text \<open>
  The amended C2 at concrete texts: a block with the tag \<^verbatim>\<open>ts\<close> between two lines of
  prose, which the expression matches once, and a text without a fence, which it does not
  match.
\<close>

theorem extractCodeFromResponse_one_block_witness:
  "regex_match_all
     (js ''Here you go:'' @ [NL] @ fence @ js ''ts'' @ [NL] @ js ''  let y = 2  '' @ [NL] @ fence
        @ [NL] @ js ''Enjoy.'')
     = [(fence @ js ''ts'' @ [NL] @ js ''  let y = 2  '' @ [NL] @ fence, js ''  let y = 2  '')]
   \<and> extractCodeFromResponse
     (js ''Here you go:'' @ [NL] @ fence @ js ''ts'' @ [NL] @ js ''  let y = 2  '' @ [NL] @ fence
        @ [NL] @ js ''Enjoy.'') = js ''let y = 2''
   \<and> regex_match_all (js ''  const z = 3 '' @ [NL]) = []
   \<and> extractCodeFromResponse (js ''  const z = 3 '' @ [NL]) = js ''const z = 3''"
proof -
  let ?pre = "js ''Here you go:'' @ [NL]"
  let ?g = "js ''  let y = 2  ''"
  let ?post = "[NL] @ js ''Enjoy.''"
  let ?m = "fence @ js ''ts'' @ [NL] @ ?g @ [NL] @ fence"
  let ?r = "?pre @ ?m @ ?post"
  let ?b = "js ''  const z = 3 '' @ [NL]"
  have t: "js ''ts'' \<in> set (tags @ [[]])"
    by (simp add: tags_def)
  have n: "\<not> String_includes ?pre fence" "\<not> String_includes ?g fence"
    "\<not> String_includes ?post fence" "\<not> String_includes ?b fence"
    by code_simp+
  have e: "regex_match_all ?b = []"
    by code_simp
  have tr: "trim ?g = js ''let y = 2''" "trim ?b = js ''const z = 3''"
    by code_simp+
  note a = extractCodeFromResponse_one_block [where response = ?r and m = ?m and g = ?g
      and t = "js ''ts''" and pre = ?pre and post = ?post]
  note b = extractCodeFromResponse_one_block [where response = ?b and m = ?m and g = ?g
      and t = "js ''ts''" and pre = ?pre and post = ?post]
  from a t n have r: "regex_match_all ?r = [(?m, ?g)]"
    by simp
  with a n have "extractCodeFromResponse ?r = trim ?g"
    by simp
  moreover from b e have "extractCodeFromResponse ?b = trim ?b"
    by simp
  ultimately show ?thesis
    using r e tr by simp
qed

section \<open>C6: several fenced blocks\<close>




section \<open>The fallback template holds the five required markers\<close>

lemma String_includes_join_lines:
  "i < length ls \<Longrightarrow> String_includes (ls ! i) m \<Longrightarrow> String_includes (join_lines ls) m"
  unfolding String_includes_iff_sublist
proof (induction ls arbitrary: i rule: join_lines.induct)
  case 1
  then show ?case by simp
next
  case (2 l)
  then show ?case by simp
next
  case (3 l l' ls)
  show ?case
  proof (cases i)
    case 0
    with "3.prems" have "sublist m l" by simp
    then show ?thesis
      by (simp add: sublist_append)
  next
    case (Suc j)
    with "3.prems" have "sublist m (join_lines (l' # ls))"
      by (intro "3.IH" [of j]) simp_all
    then show ?thesis
      by (simp add: sublist_append sublist_Cons_right)
  qed
qed

lemma fallback_lines_length: "length generateEnhancedFallbackUI_lines = 297"
  by (simp add: generateEnhancedFallbackUI_lines_def)

lemma fallback_line_0:
  "generateEnhancedFallbackUI_lines ! 0 = [0x27] @ js ''use client'' @ [0x27]"
  by (simp add: generateEnhancedFallbackUI_lines_def)

lemma fallback_line_7:
  "generateEnhancedFallbackUI_lines ! 7 = js ''import { useFuyouStore } from '@/store/fuyouStore'' @ [0x27]"
  by (simp add: generateEnhancedFallbackUI_lines_def)

lemma fallback_line_13:
  "generateEnhancedFallbackUI_lines ! 13 = js ''export default function GeneratedUI() {''"
  by (simp add: generateEnhancedFallbackUI_lines_def)

lemma fallback_line_27:
  "generateEnhancedFallbackUI_lines ! 27
     = js ''    console.log('' @ [0x27, 0xD83D, 0xDD04] @ js '' [Generated UI] Income update triggered')''"
  by (simp add: generateEnhancedFallbackUI_lines_def)

lemma fallback_line_116:
  "generateEnhancedFallbackUI_lines ! 116 = js ''                onClick={handleIncomeUpdate}''"
  by (simp add: generateEnhancedFallbackUI_lines_def)

lemma fallback_includes_use_client:
  "String_includes generateEnhancedFallbackUI ([0x27] @ js ''use client'' @ [0x27])"
proof -
  have "String_includes (generateEnhancedFallbackUI_lines ! 0) ([0x27] @ js ''use client'' @ [0x27])"
    unfolding fallback_line_0 by code_simp
  then show ?thesis
    unfolding generateEnhancedFallbackUI_def
    by (rule String_includes_join_lines [rotated]) (simp add: fallback_lines_length)
qed

lemma fallback_includes_export:
  "String_includes generateEnhancedFallbackUI (js ''export default function GeneratedUI'')"
proof -
  have "String_includes (generateEnhancedFallbackUI_lines ! 13) (js ''export default function GeneratedUI'')"
    unfolding fallback_line_13 by code_simp
  then show ?thesis
    unfolding generateEnhancedFallbackUI_def
    by (rule String_includes_join_lines [rotated]) (simp add: fallback_lines_length)
qed

lemma fallback_includes_useFuyouStore:
  "String_includes generateEnhancedFallbackUI (js ''useFuyouStore'')"
proof -
  have "String_includes (generateEnhancedFallbackUI_lines ! 7) (js ''useFuyouStore'')"
    unfolding fallback_line_7 by code_simp
  then show ?thesis
    unfolding generateEnhancedFallbackUI_def
    by (rule String_includes_join_lines [rotated]) (simp add: fallback_lines_length)
qed

lemma fallback_includes_onClick:
  "String_includes generateEnhancedFallbackUI (js ''onClick'')"
proof -
  have "String_includes (generateEnhancedFallbackUI_lines ! 116) (js ''onClick'')"
    unfolding fallback_line_116 by code_simp
  then show ?thesis
    unfolding generateEnhancedFallbackUI_def
    by (rule String_includes_join_lines [rotated]) (simp add: fallback_lines_length)
qed

lemma fallback_includes_console_log:
  "String_includes generateEnhancedFallbackUI (js ''console.log'')"
proof -
  have "String_includes (generateEnhancedFallbackUI_lines ! 27) (js ''console.log'')"
    unfolding fallback_line_27 by code_simp
  then show ?thesis
    unfolding generateEnhancedFallbackUI_def
    by (rule String_includes_join_lines [rotated]) (simp add: fallback_lines_length)
qed

lemma fallback_missingElements: "missingElements generateEnhancedFallbackUI = []"
  using fallback_includes_use_client fallback_includes_export fallback_includes_useFuyouStore
    fallback_includes_onClick fallback_includes_console_log
  by (simp add: missingElements_def requiredElements_def)

lemma fallback_nonempty: "generateEnhancedFallbackUI \<noteq> []"
proof
  assume "generateEnhancedFallbackUI = []"
  with fallback_includes_onClick have "String_includes [] (js ''onClick'')"
    by simp
  then show False
    by (simp add: js_def)
qed

section \<open>C1: the generation call never throws and falls back\<close>

lemma callGeminiAPI_no_key:
  "apiKey this = None \<or> apiKey this = Some [] \<Longrightarrow>
     callGeminiAPI this net prompt = (Inr generateEnhancedFallbackUI, [])"
  by (auto simp: callGeminiAPI_def)

lemma callGeminiAPI_failure:
  "apiKey this = Some key \<Longrightarrow> key \<noteq> [] \<Longrightarrow> callGeminiAPI_try net key prompt = Inl e \<Longrightarrow>
     callGeminiAPI this net prompt = (Inr generateEnhancedFallbackUI, [gemini_request key prompt])"
  by (simp add: callGeminiAPI_def)

lemma callGeminiAPI_returns:
  "\<exists>code. fst (callGeminiAPI this net prompt) = Inr code"
  by (simp add: callGeminiAPI_def split: option.splits sum.splits)

text \<open>
  C1: for every instance, network and prompt, \<open>callGeminiAPI\<close> returns source text and
  never an exception. Without a key (unset or empty) it sends no request and returns the
  fallback template. With a key, every exception of the API path gives the fallback
  template: in particular a response whose status is not a success, and a successful
  response whose text field is missing or the empty string.
\<close>

theorem callGeminiAPI_never_throws:
  "(\<exists>code. fst (callGeminiAPI this net prompt) = Inr code)
   \<and> (apiKey this = None \<or> apiKey this = Some []
        \<longrightarrow> callGeminiAPI this net prompt = (Inr generateEnhancedFallbackUI, []))
   \<and> (apiKey this = Some key \<and> key \<noteq> [] \<and> callGeminiAPI_try net key prompt = Inl e
        \<longrightarrow> callGeminiAPI this net prompt
              = (Inr generateEnhancedFallbackUI, [gemini_request key prompt]))
   \<and> (apiKey this = Some key \<and> key \<noteq> []
          \<and> net (gemini_request key prompt) = Response False status body
        \<longrightarrow> callGeminiAPI this net prompt
              = (Inr generateEnhancedFallbackUI, [gemini_request key prompt]))
   \<and> (apiKey this = Some key \<and> key \<noteq> []
          \<and> net (gemini_request key prompt) = Response True status (Data v)
          \<and> (v = Undefined \<or> v = StringValue [])
        \<longrightarrow> callGeminiAPI this net prompt
              = (Inr generateEnhancedFallbackUI, [gemini_request key prompt]))"
proof (intro conjI impI)
  show "\<exists>code. fst (callGeminiAPI this net prompt) = Inr code"
    by (rule callGeminiAPI_returns)
next
  assume "apiKey this = None \<or> apiKey this = Some []"
  then show "callGeminiAPI this net prompt = (Inr generateEnhancedFallbackUI, [])"
    by (rule callGeminiAPI_no_key)
next
  assume "apiKey this = Some key \<and> key \<noteq> [] \<and> callGeminiAPI_try net key prompt = Inl e"
  then show "callGeminiAPI this net prompt
      = (Inr generateEnhancedFallbackUI, [gemini_request key prompt])"
    by (simp add: callGeminiAPI_failure)
next
  assume a: "apiKey this = Some key \<and> key \<noteq> []
    \<and> net (gemini_request key prompt) = Response False status body"
  then have "callGeminiAPI_try net key prompt = Inl (GeminiAPIError status)"
    by (simp add: callGeminiAPI_try_def)
  with a show "callGeminiAPI this net prompt
      = (Inr generateEnhancedFallbackUI, [gemini_request key prompt])"
    by (simp add: callGeminiAPI_failure)
next
  assume a: "apiKey this = Some key \<and> key \<noteq> []
    \<and> net (gemini_request key prompt) = Response True status (Data v)
    \<and> (v = Undefined \<or> v = StringValue [])"
  then have "callGeminiAPI_try net key prompt = Inl EmptyResponse"
    by (auto simp: callGeminiAPI_try_def)
  with a show "callGeminiAPI this net prompt
      = (Inr generateEnhancedFallbackUI, [gemini_request key prompt])"
    by (simp add: callGeminiAPI_failure)
qed

text \<open>
  C1 at concrete inputs: an instance without a key, and an instance with the key
  \<^verbatim>\<open>KEY\<close> against a service that answers 503, one that answers 200 without a text
  field, one that answers 200 with an empty text, and one that cannot be reached.
\<close>

theorem callGeminiAPI_never_throws_witness:
  "callGeminiAPI \<lparr>projectRoot = [], apiKey = None\<rparr> (\<lambda>r. Rejected) (js ''p'')
     = (Inr generateEnhancedFallbackUI, [])
   \<and> callGeminiAPI \<lparr>projectRoot = [], apiKey = Some (js ''KEY'')\<rparr>
       (\<lambda>r. Response False 503 Unparseable) (js ''p'')
     = (Inr generateEnhancedFallbackUI, [gemini_request (js ''KEY'') (js ''p'')])
   \<and> callGeminiAPI \<lparr>projectRoot = [], apiKey = Some (js ''KEY'')\<rparr>
       (\<lambda>r. Response True 200 (Data Undefined)) (js ''p'')
     = (Inr generateEnhancedFallbackUI, [gemini_request (js ''KEY'') (js ''p'')])
   \<and> callGeminiAPI \<lparr>projectRoot = [], apiKey = Some (js ''KEY'')\<rparr>
       (\<lambda>r. Response True 200 (Data (StringValue []))) (js ''p'')
     = (Inr generateEnhancedFallbackUI, [gemini_request (js ''KEY'') (js ''p'')])
   \<and> callGeminiAPI \<lparr>projectRoot = [], apiKey = Some (js ''KEY'')\<rparr> (\<lambda>r. Rejected) (js ''p'')
     = (Inr generateEnhancedFallbackUI, [gemini_request (js ''KEY'') (js ''p'')])"
proof -
  have k: "js ''KEY'' \<noteq> []"
    by (simp add: js_def)
  have t: "callGeminiAPI_try (\<lambda>r. Rejected) (js ''KEY'') (js ''p'') = Inl FetchFailed"
    by (simp add: callGeminiAPI_try_def)
  show ?thesis
    using
      callGeminiAPI_never_throws [where this = "\<lparr>projectRoot = [], apiKey = None\<rparr>"
        and net = "\<lambda>r. Rejected" and prompt = "js ''p''"]
      callGeminiAPI_never_throws [where this = "\<lparr>projectRoot = [], apiKey = Some (js ''KEY'')\<rparr>"
        and net = "\<lambda>r. Response False 503 Unparseable" and prompt = "js ''p''"
        and key = "js ''KEY''" and status = 503 and body = Unparseable]
      callGeminiAPI_never_throws [where this = "\<lparr>projectRoot = [], apiKey = Some (js ''KEY'')\<rparr>"
        and net = "\<lambda>r. Response True 200 (Data Undefined)" and prompt = "js ''p''"
        and key = "js ''KEY''" and status = 200 and v = Undefined]
      callGeminiAPI_never_throws [where this = "\<lparr>projectRoot = [], apiKey = Some (js ''KEY'')\<rparr>"
        and net = "\<lambda>r. Response True 200 (Data (StringValue []))" and prompt = "js ''p''"
        and key = "js ''KEY''" and status = 200 and v = "StringValue []"]
      callGeminiAPI_never_throws [where this = "\<lparr>projectRoot = [], apiKey = Some (js ''KEY'')\<rparr>"
        and net = "\<lambda>r. Rejected" and prompt = "js ''p''" and key = "js ''KEY''"
        and e = FetchFailed]
      k t
    by simp
qed

section \<open>C8: the generation call can return the empty string\<close>

text \<open>
  C8 says that the string \<open>callGeminiAPI\<close> returns is never empty. The code tests the raw
  text of the response for emptiness before the extraction, not the extracted text: with a
  key configured and a successful response whose text is one space, the raw text is not
  empty, nothing is fenced, and \<^verbatim>\<open>trim\<close> leaves the empty string, which is returned.
\<close>

theorem callGeminiAPI_whitespace_response_empty:
  "callGeminiAPI \<lparr>projectRoot = rootDir, apiKey = Some (js ''KEY'')\<rparr>
     (\<lambda>r. Response True 200 (Data (StringValue (js '' '')))) prompt
     = (Inr [], [gemini_request (js ''KEY'') prompt])"
proof -
  have "extractCodeFromResponse (js '' '') = []"
    by code_simp
  then show ?thesis
    by (simp add: callGeminiAPI_def callGeminiAPI_try_def js_def)
qed

text \<open>The same at a concrete prompt; the fallback template, by contrast, is not empty.\<close>

theorem callGeminiAPI_whitespace_response_empty_witness:
  "fst (callGeminiAPI \<lparr>projectRoot = [], apiKey = Some (js ''KEY'')\<rparr>
     (\<lambda>r. Response True 200 (Data (StringValue (js '' '')))) (js ''p'')) = Inr []
   \<and> generateEnhancedFallbackUI \<noteq> []"
  using callGeminiAPI_whitespace_response_empty [of "[]" "js ''p''"] fallback_nonempty
  by simp

section \<open>The file system: auxiliary facts\<close>

lemma lookup_nonempty: "p \<noteq> [] \<Longrightarrow> lookup fs p = fs p"
  by (simp add: lookup_def)

lemma mkdir_from_changes:
  "mkdir_from fs walked cs = Inr fs' \<Longrightarrow> fs' q \<noteq> fs q \<Longrightarrow>
     fs q = None \<and> fs' q = Some Directory \<and> strict_prefix walked q \<and> prefix q (walked @ cs)"
proof (induction cs arbitrary: fs walked)
  case Nil
  then show ?case by simp
next
  case (Cons c cs)
  show ?case
  proof (cases "fs (walked @ [c])")
    case None
    with Cons.prems(1) have r: "mkdir_from (fs(walked @ [c] \<mapsto> Directory)) (walked @ [c]) cs = Inr fs'"
      by (simp add: lookup_nonempty)
    show ?thesis
    proof (cases "fs' q = (fs(walked @ [c] \<mapsto> Directory)) q")
      case True
      with Cons.prems(2) have "q = walked @ [c]"
        by (auto split: if_splits)
      with True None show ?thesis
        by (simp add: strict_prefix_def)
    next
      case False
      from Cons.IH [OF r False] show ?thesis
        by (auto simp: strict_prefix_def prefix_def split: if_splits)
    qed
  next
    case (Some n)
    with Cons.prems(1) have n: "n = Directory"
      by (cases n) (simp_all add: lookup_nonempty)
    with Some Cons.prems(1) have r: "mkdir_from fs (walked @ [c]) cs = Inr fs'"
      by (simp add: lookup_nonempty)
    from Cons.IH [OF r Cons.prems(2)] show ?thesis
      by (auto simp: strict_prefix_def prefix_def)
  qed
qed

lemma mkdir_from_target:
  "mkdir_from fs walked cs = Inr fs' \<Longrightarrow> cs \<noteq> [] \<Longrightarrow> fs' (walked @ cs) = Some Directory"
proof (induction cs arbitrary: fs walked)
  case Nil
  then show ?case by simp
next
  case (Cons c cs)
  define fs1 where "fs1 = (case fs (walked @ [c]) of None \<Rightarrow> fs(walked @ [c] \<mapsto> Directory) | Some n \<Rightarrow> fs)"
  from Cons.prems(1) have r: "mkdir_from fs1 (walked @ [c]) cs = Inr fs'"
    and d: "fs1 (walked @ [c]) = Some Directory"
    by (auto simp: fs1_def lookup_nonempty split: option.splits node.splits)
  show ?case
  proof (cases "cs = []")
    case True
    with r d show ?thesis by simp
  next
    case False
    from Cons.IH [OF r False] show ?thesis by simp
  qed
qed

text \<open>Every directory on the way is a directory afterwards.\<close>

lemma mkdir_from_prefixes:
  "mkdir_from fs walked cs = Inr fs' \<Longrightarrow> strict_prefix walked q \<Longrightarrow> prefix q (walked @ cs) \<Longrightarrow>
     fs' q = Some Directory"
proof (induction cs arbitrary: fs walked)
  case Nil
  then show ?case by (auto simp: strict_prefix_def)
next
  case (Cons c cs)
  define fs1 where "fs1 = (case fs (walked @ [c]) of None \<Rightarrow> fs(walked @ [c] \<mapsto> Directory) | Some n \<Rightarrow> fs)"
  from Cons.prems(1) have r: "mkdir_from fs1 (walked @ [c]) cs = Inr fs'"
    and d: "fs1 (walked @ [c]) = Some Directory"
    by (auto simp: fs1_def lookup_nonempty split: option.splits node.splits)
  show ?case
  proof (cases "q = walked @ [c]")
    case True
    have "fs' q = fs1 q"
      using mkdir_from_changes [OF r, of q] d True by fastforce
    with d True show ?thesis by simp
  next
    case False
    from Cons.prems(2,3) obtain u where q: "q = walked @ u" and u: "u \<noteq> []" "prefix u (c # cs)"
      by (auto simp: strict_prefix_def prefix_def append_eq_append_conv2)
    with False obtain v where "u = c # v" "v \<noteq> []" "prefix v cs"
      by (cases u) (auto simp: prefix_def)
    with q have "strict_prefix (walked @ [c]) q" "prefix q ((walked @ [c]) @ cs)"
      by (auto simp: strict_prefix_def prefix_def)
    from Cons.IH [OF r this] show ?thesis .
  qed
qed

lemma mkdir_from_succeeds:
  "(\<And>q x. strict_prefix walked q \<Longrightarrow> prefix q (walked @ cs) \<Longrightarrow> fs q \<noteq> Some (File x)) \<Longrightarrow>
     \<exists>fs'. mkdir_from fs walked cs = Inr fs'"
proof (induction cs arbitrary: fs walked)
  case Nil
  then show ?case by simp
next
  case (Cons c cs)
  have nf: "fs (walked @ [c]) \<noteq> Some (File x)" for x
    by (rule Cons.prems) (simp_all add: strict_prefix_def)
  define fs1 where "fs1 = (case fs (walked @ [c]) of None \<Rightarrow> fs(walked @ [c] \<mapsto> Directory) | Some n \<Rightarrow> fs)"
  have s: "mkdir_from fs walked (c # cs) = mkdir_from fs1 (walked @ [c]) cs"
    using nf by (auto simp: fs1_def lookup_nonempty split: option.splits node.splits)
  have "fs1 q \<noteq> Some (File x)" if "strict_prefix (walked @ [c]) q" "prefix q ((walked @ [c]) @ cs)" for q x
  proof -
    from that have "fs q \<noteq> Some (File x)"
      by (intro Cons.prems) (auto simp: strict_prefix_def prefix_def)
    then show ?thesis
      by (auto simp: fs1_def split: option.splits if_splits)
  qed
  from Cons.IH [of "walked @ [c]" fs1, OF this] s show ?case
    by simp
qed

lemma butlast_join: "butlast (join p name) = p"
  by (simp add: join_def)

lemma writeFileSync_Inr:
  "writeFileSync fs p data = Inr fs' \<longleftrightarrow>
     p \<noteq> [] \<and> lookup fs (butlast p) = Some Directory \<and> fs p \<noteq> Some Directory
       \<and> fs' = fs(p \<mapsto> File (utf8_written data))"
  by (auto simp: writeFileSync_def lookup_nonempty split: option.splits node.splits)

section \<open>UTF-8 text: auxiliary facts\<close>

lemma utf8_written_well_formed: "well_formed s \<Longrightarrow> utf8_written s = s"
  by (induction s rule: well_formed.induct) (auto simp: replace_lone_def)

lemma well_formed_append: "well_formed a \<Longrightarrow> well_formed b \<Longrightarrow> well_formed (a @ b)"
proof (induction a rule: well_formed.induct)
  case 1
  then show ?case by simp
next
  case (2 c)
  then show ?case by (cases b) auto
next
  case (3 c d cs)
  then show ?case by (auto split: if_splits)
qed

lemma unat_of_char: "unat (of_char ch :: 16 word) = of_char ch"
proof -
  have "unat (of_nat (of_char ch) :: 16 word) = of_char ch mod 2 ^ 16"
    by (simp add: unat_of_nat del: of_nat_of_char)
  moreover have "(of_char ch :: nat) < 2 ^ 16"
    by (rule less_trans [OF nat_of_char_less_256]) simp
  ultimately show ?thesis
    by (simp add: of_nat_of_char)
qed

lemma of_char_not_surrogate:
  "\<not> is_high_surrogate (of_char ch)" "\<not> is_low_surrogate (of_char ch)"
proof -
  have "unat (of_char ch :: 16 word) < 256"
    using nat_of_char_less_256 [of ch] by (simp add: unat_of_char)
  then have "\<not> (0xD800 :: 16 word) \<le> of_char ch" "\<not> (0xDC00 :: 16 word) \<le> of_char ch"
    by (simp_all add: word_le_nat_alt)
  then show "\<not> is_high_surrogate (of_char ch)" "\<not> is_low_surrogate (of_char ch)"
    by (simp_all add: is_high_surrogate_def is_low_surrogate_def)
qed

lemma well_formed_no_surrogate:
  "(\<And>c. c \<in> set s \<Longrightarrow> \<not> is_high_surrogate c \<and> \<not> is_low_surrogate c) \<Longrightarrow> well_formed s"
  by (induction s rule: well_formed.induct) auto

lemma well_formed_js: "well_formed (js s)"
  by (rule well_formed_no_surrogate) (auto simp: js_def of_char_not_surrogate)

lemma well_formed_Cons:
  "\<not> is_high_surrogate c \<Longrightarrow> \<not> is_low_surrogate c \<Longrightarrow> well_formed (c # s) = well_formed s"
  by (cases s) auto

lemma well_formed_join_lines:
  "(\<And>l. l \<in> set ls \<Longrightarrow> well_formed l) \<Longrightarrow> well_formed (join_lines ls)"
proof (induction ls rule: join_lines.induct)
  case 1
  then show ?case by simp
next
  case (2 l)
  then show ?case by simp
next
  case (3 l l' ls)
  have "well_formed (NL # join_lines (l' # ls))"
    using "3.IH" "3.prems"
    by (simp add: well_formed_Cons NL_def is_high_surrogate_def is_low_surrogate_def)
  with "3.prems" show ?case
    by (simp add: well_formed_append)
qed

text \<open>The fallback template has no lone surrogate: it is written as it is.\<close>

lemma fallback_lines_well_formed:
  "l \<in> set generateEnhancedFallbackUI_lines \<Longrightarrow> well_formed l"
  unfolding generateEnhancedFallbackUI_lines_def
  by (auto simp: well_formed_append well_formed_js well_formed_Cons
      is_high_surrogate_def is_low_surrogate_def)

lemma fallback_well_formed: "well_formed generateEnhancedFallbackUI"
  unfolding generateEnhancedFallbackUI_def
  by (rule well_formed_join_lines) (rule fallback_lines_well_formed)

section \<open>The writer: auxiliary facts\<close>

lemma saveGeneratedUI_facts:
  "((\<forall>q x. prefix q (join (projectRoot this) (js ''app'')) \<longrightarrow> fs q \<noteq> Some (File x))
      \<and> fs (join (join (projectRoot this) (js ''app'')) (js ''GeneratedUI.tsx'')) \<noteq> Some Directory
     \<longrightarrow> (\<exists>fs'. saveGeneratedUI this fs code
            = (Inr (join (join (projectRoot this) (js ''app'')) (js ''GeneratedUI.tsx'')), fs')))
   \<and> (saveGeneratedUI this fs code = (Inr p, fs')
     \<longrightarrow> p = join (join (projectRoot this) (js ''app'')) (js ''GeneratedUI.tsx'')
        \<and> lookup fs' (join (projectRoot this) (js ''app'')) = Some Directory
        \<and> (\<not> existsSync fs (join (projectRoot this) (js ''app''))
             \<longrightarrow> (\<forall>q. prefix q (join (projectRoot this) (js ''app''))
                    \<longrightarrow> lookup fs' q = Some Directory))
        \<and> (\<forall>q. q \<noteq> p \<and> (fs q \<noteq> None \<or> \<not> prefix q (join (projectRoot this) (js ''app'')))
              \<longrightarrow> fs' q = fs q)
        \<and> lookup fs' p = Some (File (utf8_written code))
        \<and> (well_formed code \<longrightarrow> lookup fs' p = Some (File code))
        \<and> (\<exists>fs''. saveGeneratedUI this fs' code' = (Inr p, fs'')
              \<and> lookup fs'' p = Some (File (utf8_written code'))
              \<and> (\<forall>q. q \<noteq> p \<longrightarrow> fs'' q = fs' q)))"
proof (intro conjI impI)
  define outputDir where "outputDir = join (projectRoot this) (js ''app'')"
  define outputPath where "outputPath = join outputDir (js ''GeneratedUI.tsx'')"
  have ne: "outputDir \<noteq> []" "outputPath \<noteq> []" "outputPath \<noteq> outputDir"
    "butlast outputPath = outputDir" "\<not> prefix outputPath outputDir"
    by (simp_all add: outputDir_def outputPath_def join_def prefix_def butlast_append)
  have save: "saveGeneratedUI this fs0 c =
      (case (if \<not> existsSync fs0 outputDir then mkdirSync fs0 outputDir else Inr fs0) of
         Inl e \<Rightarrow> (Inl e, fs0)
       | Inr fs1 \<Rightarrow> (case writeFileSync fs1 outputPath c of
                      Inl e \<Rightarrow> (Inl e, fs1)
                    | Inr fs2 \<Rightarrow> (Inr outputPath, fs2)))" for fs0 c
    unfolding saveGeneratedUI_def outputDir_def outputPath_def Let_def by (rule refl)
  {
    assume a: "(\<forall>q x. prefix q (join (projectRoot this) (js ''app'')) \<longrightarrow> fs q \<noteq> Some (File x))
      \<and> fs (join (join (projectRoot this) (js ''app'')) (js ''GeneratedUI.tsx'')) \<noteq> Some Directory"
    then have nf: "\<And>q x. prefix q outputDir \<Longrightarrow> fs q \<noteq> Some (File x)"
      and nd: "fs outputPath \<noteq> Some Directory"
      by (simp_all add: outputDir_def outputPath_def)
    have "\<exists>fs'. saveGeneratedUI this fs code = (Inr outputPath, fs')"
    proof (cases "existsSync fs outputDir")
      case True
      with nf [of outputDir] ne have "lookup fs outputDir = Some Directory"
        by (cases "fs outputDir"; cases "the (fs outputDir)")
          (auto simp: existsSync_def lookup_nonempty)
      with nd ne have "writeFileSync fs outputPath code
          = Inr (fs(outputPath \<mapsto> File (utf8_written code)))"
        by (simp add: writeFileSync_Inr)
      with True show ?thesis
        by (simp add: save)
    next
      case False
      have "\<exists>fs1. mkdir_from fs [] outputDir = Inr fs1"
        by (rule mkdir_from_succeeds) (use nf in \<open>simp add: strict_prefix_def\<close>)
      then obtain fs1 where m: "mkdir_from fs [] outputDir = Inr fs1"
        by blast
      from mkdir_from_target [OF m] ne have d: "lookup fs1 outputDir = Some Directory"
        by (simp add: lookup_nonempty)
      have "fs1 outputPath = fs outputPath"
        using mkdir_from_changes [OF m, of outputPath] ne by auto
      with nd d ne have "writeFileSync fs1 outputPath code
          = Inr (fs1(outputPath \<mapsto> File (utf8_written code)))"
        by (simp add: writeFileSync_Inr)
      with False m show ?thesis
        by (simp add: save mkdirSync_def)
    qed
    then show "\<exists>fs'. saveGeneratedUI this fs code
        = (Inr (join (join (projectRoot this) (js ''app'')) (js ''GeneratedUI.tsx'')), fs')"
      by (simp add: outputDir_def outputPath_def)
  }
  assume s: "saveGeneratedUI this fs code = (Inr p, fs')"
  define r0 where "r0 = (if \<not> existsSync fs outputDir then mkdirSync fs outputDir else Inr fs)"
  from s have s': "(case r0 of
         Inl e \<Rightarrow> (Inl e, fs)
       | Inr fs1 \<Rightarrow> (case writeFileSync fs1 outputPath code of
                      Inl e \<Rightarrow> (Inl e, fs1)
                    | Inr fs2 \<Rightarrow> (Inr outputPath, fs2))) = (Inr p, fs')"
    unfolding save r0_def .
  then obtain fs1 where r0: "r0 = Inr fs1"
    by (cases r0) simp_all
  with s' have w: "writeFileSync fs1 outputPath code = Inr fs'" and p: "p = outputPath"
    by (cases "writeFileSync fs1 outputPath code"; simp)+
  from w have d1: "lookup fs1 outputDir = Some Directory"
    and fs': "fs' = fs1(outputPath \<mapsto> File (utf8_written code))"
    by (simp_all add: writeFileSync_Inr ne)
  from d1 fs' ne have d: "lookup fs' outputDir = Some Directory"
    by (simp add: lookup_nonempty)
  from fs' ne have f: "lookup fs' outputPath = Some (File (utf8_written code))"
    by (simp add: lookup_nonempty)
  from p show "p = join (join (projectRoot this) (js ''app'')) (js ''GeneratedUI.tsx'')"
    by (simp add: outputDir_def outputPath_def)
  from d show "lookup fs' (join (projectRoot this) (js ''app'')) = Some Directory"
    by (simp add: outputDir_def)
  from f p show "lookup fs' p = Some (File (utf8_written code))"
    by simp
  {
    assume "well_formed code"
    with f p show "lookup fs' p = Some (File code)"
      by (simp add: utf8_written_well_formed)
  }
  {
    assume n: "\<not> existsSync fs (join (projectRoot this) (js ''app''))"
    with r0 have m: "mkdir_from fs [] outputDir = Inr fs1"
      by (simp add: r0_def mkdirSync_def outputDir_def)
    show "\<forall>q. prefix q (join (projectRoot this) (js ''app'')) \<longrightarrow> lookup fs' q = Some Directory"
    proof (intro allI impI)
      fix q
      assume pq: "prefix q (join (projectRoot this) (js ''app''))"
      show "lookup fs' q = Some Directory"
      proof (cases "q = []")
        case True
        then show ?thesis by (simp add: lookup_def)
      next
        case False
        with pq have "fs1 q = Some Directory"
          by (intro mkdir_from_prefixes [OF m]) (simp_all add: outputDir_def strict_prefix_def)
        moreover from pq ne have "q \<noteq> outputPath"
          by (auto simp: outputDir_def)
        ultimately show ?thesis
          using False by (simp add: fs' lookup_nonempty)
      qed
    qed
  }
  have keep: "fs1 q = fs q" if "fs q \<noteq> None \<or> \<not> prefix q outputDir" for q
  proof (cases "existsSync fs outputDir")
    case True
    with r0 show ?thesis
      by (simp add: r0_def)
  next
    case False
    with r0 have m: "mkdir_from fs [] outputDir = Inr fs1"
      by (simp add: r0_def mkdirSync_def)
    show ?thesis
    proof (rule ccontr)
      assume "fs1 q \<noteq> fs q"
      from mkdir_from_changes [OF m this] have "fs q = None" "prefix q outputDir"
        by simp_all
      with that show False
        by simp
    qed
  qed
  show "\<forall>q. q \<noteq> p \<and> (fs q \<noteq> None \<or> \<not> prefix q (join (projectRoot this) (js ''app'')))
      \<longrightarrow> fs' q = fs q"
    using keep by (simp add: fs' p outputDir_def)
  from d f ne have "writeFileSync fs' outputPath code'
      = Inr (fs'(outputPath \<mapsto> File (utf8_written code')))"
    by (simp add: writeFileSync_Inr lookup_nonempty)
  with d have "saveGeneratedUI this fs' code'
      = (Inr outputPath, fs'(outputPath \<mapsto> File (utf8_written code')))"
    by (simp add: save existsSync_def)
  with p ne show "\<exists>fs''. saveGeneratedUI this fs' code' = (Inr p, fs'')
      \<and> lookup fs'' p = Some (File (utf8_written code'))
      \<and> (\<forall>q. q \<noteq> p \<longrightarrow> fs'' q = fs' q)"
    by (simp add: lookup_nonempty)
qed

lemma saveGeneratedUI_succeeds:
  assumes "\<And>q x. prefix q (join (projectRoot this) (js ''app'')) \<Longrightarrow> fs q \<noteq> Some (File x)"
    and "fs (join (join (projectRoot this) (js ''app'')) (js ''GeneratedUI.tsx'')) \<noteq> Some Directory"
  shows "\<exists>fs'. saveGeneratedUI this fs code
    = (Inr (join (join (projectRoot this) (js ''app'')) (js ''GeneratedUI.tsx'')), fs')"
proof (rule mp [OF conjunct1 [OF saveGeneratedUI_facts [where this = this and fs = fs and code = code]]])
  from assms
  show "(\<forall>q x. prefix q (join (projectRoot this) (js ''app'')) \<longrightarrow> fs q \<noteq> Some (File x))
      \<and> fs (join (join (projectRoot this) (js ''app'')) (js ''GeneratedUI.tsx'')) \<noteq> Some Directory"
    by simp
qed

lemma saveGeneratedUI_result:
  assumes "saveGeneratedUI this fs code = (Inr p, fs')"
  shows "p = join (join (projectRoot this) (js ''app'')) (js ''GeneratedUI.tsx'')"
    and "lookup fs' p = Some (File (utf8_written code))"
proof -
  note r = mp [OF conjunct2 [OF saveGeneratedUI_facts [where this = this and fs = fs and code = code
          and p = p and fs' = fs' and code' = code]] assms]
  from r show "p = join (join (projectRoot this) (js ''app'')) (js ''GeneratedUI.tsx'')"
    by (rule conjunct1)
  from r show "lookup fs' p = Some (File (utf8_written code))"
    by (rule conjunct1 [OF conjunct2 [OF conjunct2 [OF conjunct2 [OF conjunct2]]]])
qed

section \<open>C4: saveGeneratedUI\<close>

text \<open>
  C4. Write \<open>outputDir\<close> for \<^verbatim>\<open><projectRoot>/app\<close> and \<open>outputPath\<close> for
  \<^verbatim>\<open><projectRoot>/app/GeneratedUI.tsx\<close>.
  \<^item> When no file stands where a directory of \<open>outputDir\<close> is needed and no directory
    stands at \<open>outputPath\<close>, \<open>saveGeneratedUI\<close> succeeds and returns \<open>outputPath\<close>,
    whether \<open>outputDir\<close> exists already or not.
  \<^item> Whenever it succeeds, it returns \<open>outputPath\<close> and \<open>outputDir\<close> is a directory
    afterwards. When \<open>outputDir\<close> was absent, it was created recursively: every
    directory on the way from the root to \<open>outputDir\<close>, the project root among them, is a
    directory afterwards. Nothing but the output file is changed or created elsewhere:
    every path other than \<open>outputPath\<close> that existed before, or that does not lie on
    the way to \<open>outputDir\<close>, is as it was.
  \<^item> The file at \<open>outputPath\<close> holds the text given, as written in UTF-8: exactly the
    text when it has no lone surrogate, and in general the text with each lone surrogate
    replaced by U+FFFD.
  \<^item> After a successful call a second call with any other text succeeds too, leaves
    only the second text in the file and changes nothing else.
\<close>

theorem saveGeneratedUI_writes:
  "((\<forall>q x. prefix q (join (projectRoot this) (js ''app'')) \<longrightarrow> fs q \<noteq> Some (File x))
      \<and> fs (join (join (projectRoot this) (js ''app'')) (js ''GeneratedUI.tsx'')) \<noteq> Some Directory
     \<longrightarrow> (\<exists>fs'. saveGeneratedUI this fs code
            = (Inr (join (join (projectRoot this) (js ''app'')) (js ''GeneratedUI.tsx'')), fs')))
   \<and> (saveGeneratedUI this fs code = (Inr p, fs')
     \<longrightarrow> p = join (join (projectRoot this) (js ''app'')) (js ''GeneratedUI.tsx'')
        \<and> lookup fs' (join (projectRoot this) (js ''app'')) = Some Directory
        \<and> (\<not> existsSync fs (join (projectRoot this) (js ''app''))
             \<longrightarrow> (\<forall>q. prefix q (join (projectRoot this) (js ''app''))
                    \<longrightarrow> lookup fs' q = Some Directory))
        \<and> (\<forall>q. q \<noteq> p \<and> (fs q \<noteq> None \<or> \<not> prefix q (join (projectRoot this) (js ''app'')))
              \<longrightarrow> fs' q = fs q)
        \<and> lookup fs' p = Some (File (utf8_written code))
        \<and> (well_formed code \<longrightarrow> lookup fs' p = Some (File code))
        \<and> (\<exists>fs''. saveGeneratedUI this fs' code' = (Inr p, fs'')
              \<and> lookup fs'' p = Some (File (utf8_written code'))
              \<and> (\<forall>q. q \<noteq> p \<longrightarrow> fs'' q = fs' q)))"
  by (rule saveGeneratedUI_facts)

text \<open>
  C4 on the empty file system with the project root \<^verbatim>\<open>proj\<close>: the first call creates
  \<^verbatim>\<open>proj\<close> and \<^verbatim>\<open>proj/app\<close> and writes the file, the second call replaces its
  content; a text with a lone high surrogate is written with U+FFFD in its place.
\<close>

theorem saveGeneratedUI_writes_witness:
  "\<exists>fs' fs''.
     saveGeneratedUI \<lparr>projectRoot = [js ''proj''], apiKey = None\<rparr> Map.empty (js ''one'')
       = (Inr [js ''proj'', js ''app'', js ''GeneratedUI.tsx''], fs')
     \<and> lookup fs' [js ''proj''] = Some Directory
     \<and> lookup fs' [js ''proj'', js ''app''] = Some Directory
     \<and> lookup fs' [js ''proj'', js ''app'', js ''GeneratedUI.tsx''] = Some (File (js ''one''))
     \<and> fs' [js ''other''] = None
     \<and> saveGeneratedUI \<lparr>projectRoot = [js ''proj''], apiKey = None\<rparr> fs' [0x61, 0xD83D]
       = (Inr [js ''proj'', js ''app'', js ''GeneratedUI.tsx''], fs'')
     \<and> lookup fs'' [js ''proj'', js ''app'', js ''GeneratedUI.tsx''] = Some (File [0x61, 0xFFFD])
     \<and> fs'' [js ''proj'', js ''app''] = fs' [js ''proj'', js ''app'']"
proof -
  let ?gen = "\<lparr>projectRoot = [js ''proj''], apiKey = None\<rparr>"
  let ?d = "[js ''proj'', js ''app'']"
  let ?p = "[js ''proj'', js ''app'', js ''GeneratedUI.tsx'']"
  have j: "join (projectRoot ?gen) (js ''app'') = ?d" "join ?d (js ''GeneratedUI.tsx'') = ?p"
    by (simp_all add: join_def)
  note t = saveGeneratedUI_writes [where this = ?gen and fs = Map.empty and code = "js ''one''"
      and code' = "[0x61, 0xD83D]", unfolded j]
  have h: "(\<forall>q x. prefix q ?d \<longrightarrow> Map.empty q \<noteq> Some (File x)) \<and> Map.empty ?p \<noteq> Some Directory"
    by simp
  from conjunct1 [OF t] h have "\<exists>fs'. saveGeneratedUI ?gen Map.empty (js ''one'') = (Inr ?p, fs')"
    by (rule mp)
  then obtain fs' where s: "saveGeneratedUI ?gen Map.empty (js ''one'') = (Inr ?p, fs')"
    by (rule exE)
  note r = mp [OF conjunct2 [OF t [where p = ?p and fs' = fs']] s]
  have ne: "\<not> existsSync Map.empty ?d"
    by (simp add: existsSync_def lookup_def)
  have n: "js ''other'' \<noteq> js ''proj''" "js ''GeneratedUI.tsx'' \<noteq> js ''app''"
    by (simp_all add: js_def)
  from r have r2: "lookup fs' ?d = Some Directory"
    by blast
  from r have "\<not> existsSync Map.empty ?d \<longrightarrow> (\<forall>q. prefix q ?d \<longrightarrow> lookup fs' q = Some Directory)"
    by blast
  with ne have "\<forall>q. prefix q ?d \<longrightarrow> lookup fs' q = Some Directory"
    by (rule rev_mp)
  then have r3: "lookup fs' [js ''proj''] = Some Directory"
    by simp
  from r have "\<forall>q. q \<noteq> ?p \<and> (Map.empty q \<noteq> None \<or> \<not> prefix q ?d) \<longrightarrow> fs' q = Map.empty q"
    by blast
  from spec [OF this, of "[js ''other'']"] n have r4: "fs' [js ''other''] = None"
    by simp
  from r have "well_formed (js ''one'') \<longrightarrow> lookup fs' ?p = Some (File (js ''one''))"
    by blast
  with well_formed_js have r5: "lookup fs' ?p = Some (File (js ''one''))"
    by (rule rev_mp)
  from r have "\<exists>fs''. saveGeneratedUI ?gen fs' [0x61, 0xD83D] = (Inr ?p, fs'')
      \<and> lookup fs'' ?p = Some (File (utf8_written [0x61, 0xD83D]))
      \<and> (\<forall>q. q \<noteq> ?p \<longrightarrow> fs'' q = fs' q)"
    by blast
  then obtain fs'' where s2: "saveGeneratedUI ?gen fs' [0x61, 0xD83D] = (Inr ?p, fs'')"
    and f2: "lookup fs'' ?p = Some (File (utf8_written [0x61, 0xD83D]))"
    and k2: "\<forall>q. q \<noteq> ?p \<longrightarrow> fs'' q = fs' q"
    by blast
  have u: "utf8_written [0x61, 0xD83D] = [0x61, 0xFFFD]"
    by (simp add: replace_lone_def is_high_surrogate_def is_low_surrogate_def)
  from spec [OF k2, of ?d] have k3: "fs'' ?d = fs' ?d"
    by simp
  from s r3 r2 r5 r4 s2 f2 [unfolded u] k3
  have c: "saveGeneratedUI ?gen Map.empty (js ''one'') = (Inr ?p, fs')
     \<and> lookup fs' [js ''proj''] = Some Directory
     \<and> lookup fs' ?d = Some Directory
     \<and> lookup fs' ?p = Some (File (js ''one''))
     \<and> fs' [js ''other''] = None
     \<and> saveGeneratedUI ?gen fs' [0x61, 0xD83D] = (Inr ?p, fs'')
     \<and> lookup fs'' ?p = Some (File [0x61, 0xFFFD])
     \<and> fs'' ?d = fs' ?d"
    by (intro conjI)
  show ?thesis
    by (rule exI, rule exI) (fact c)
qed

section \<open>C3: validateGeneratedUI\<close>

lemma validateGeneratedUI_try_Inr:
  "validateGeneratedUI_try fs filePath = Inr passed \<longleftrightarrow>
     (\<exists>content. lookup fs filePath = Some (File content)
        \<and> passed = (missingElements content = []))"
  by (auto simp: validateGeneratedUI_try_def existsSync_def readFileSync_def
      split: option.splits node.splits)

lemma validateGeneratedUI_file:
  "lookup fs filePath = Some (File content) \<Longrightarrow>
     validateGeneratedUI fs filePath = (Inr (missingElements content = []), fs)"
proof -
  assume "lookup fs filePath = Some (File content)"
  then have "validateGeneratedUI_try fs filePath = Inr (missingElements content = [])"
    by (simp add: validateGeneratedUI_try_Inr)
  then show ?thesis
    by (simp add: validateGeneratedUI_def)
qed

lemma missingElements_Nil:
  "missingElements content = [] \<longleftrightarrow>
     String_includes content ([0x27] @ js ''use client'' @ [0x27])
     \<and> String_includes content (js ''export default function GeneratedUI'')
     \<and> String_includes content (js ''useFuyouStore'')
     \<and> String_includes content (js ''onClick'')
     \<and> String_includes content (js ''console.log'')"
  by (simp add: missingElements_def requiredElements_def filter_empty_conv)

text \<open>
  C3: for every file system and path, \<open>validateGeneratedUI\<close> returns a boolean, never an
  exception, and leaves the file system as it was. The boolean is true exactly when the
  path holds a file whose content includes all five markers, which is exactly when the
  path holds a file whose list of missing markers is empty; it is false for a path that
  does not exist.
\<close>

theorem validateGeneratedUI_pass_iff:
  "\<exists>passed. validateGeneratedUI fs filePath = (Inr passed, fs)
     \<and> (passed \<longleftrightarrow>
          (\<exists>content. lookup fs filePath = Some (File content)
             \<and> String_includes content ([0x27] @ js ''use client'' @ [0x27])
             \<and> String_includes content (js ''export default function GeneratedUI'')
             \<and> String_includes content (js ''useFuyouStore'')
             \<and> String_includes content (js ''onClick'')
             \<and> String_includes content (js ''console.log'')))
     \<and> (passed \<longleftrightarrow>
          (\<exists>content. lookup fs filePath = Some (File content) \<and> missingElements content = []))
     \<and> (lookup fs filePath = None \<longrightarrow> \<not> passed)"
proof (cases "validateGeneratedUI_try fs filePath")
  case (Inl e)
  then have v: "validateGeneratedUI fs filePath = (Inr False, fs)"
    by (simp add: validateGeneratedUI_def)
  have "\<not> (\<exists>content. lookup fs filePath = Some (File content) \<and> missingElements content = [])"
  proof
    assume "\<exists>content. lookup fs filePath = Some (File content) \<and> missingElements content = []"
    then have "validateGeneratedUI_try fs filePath = Inr True"
      by (simp add: validateGeneratedUI_try_Inr)
    with Inl show False by simp
  qed
  with v show ?thesis
    by (simp add: missingElements_Nil)
next
  case (Inr passed)
  then have v: "validateGeneratedUI fs filePath = (Inr passed, fs)"
    by (simp add: validateGeneratedUI_def)
  from Inr obtain content where c: "lookup fs filePath = Some (File content)"
    and p: "passed = (missingElements content = [])"
    by (auto simp: validateGeneratedUI_try_Inr)
  from v c p show ?thesis
    by (simp add: missingElements_Nil)
qed

text \<open>
  C3 on a file system with one file that holds the fallback template: the file passes,
  a path that does not exist fails, and so does a file without the markers.
\<close>

theorem validateGeneratedUI_pass_iff_witness:
  "validateGeneratedUI [[js ''GeneratedUI.tsx''] \<mapsto> File generateEnhancedFallbackUI]
       [js ''GeneratedUI.tsx'']
     = (Inr True, [[js ''GeneratedUI.tsx''] \<mapsto> File generateEnhancedFallbackUI])
   \<and> validateGeneratedUI [[js ''GeneratedUI.tsx''] \<mapsto> File generateEnhancedFallbackUI]
       [js ''Missing.tsx'']
     = (Inr False, [[js ''GeneratedUI.tsx''] \<mapsto> File generateEnhancedFallbackUI])
   \<and> validateGeneratedUI [[js ''GeneratedUI.tsx''] \<mapsto> File (js ''onClick'')]
       [js ''GeneratedUI.tsx'']
     = (Inr False, [[js ''GeneratedUI.tsx''] \<mapsto> File (js ''onClick'')])"
proof -
  have n: "js ''Missing.tsx'' \<noteq> js ''GeneratedUI.tsx''"
    by (simp add: js_def)
  have m: "\<not> String_includes (js ''onClick'') (js ''useFuyouStore'')"
    by code_simp
  show ?thesis
    using
      validateGeneratedUI_pass_iff
        [of "[[js ''GeneratedUI.tsx''] \<mapsto> File generateEnhancedFallbackUI]" "[js ''GeneratedUI.tsx'']"]
      validateGeneratedUI_pass_iff
        [of "[[js ''GeneratedUI.tsx''] \<mapsto> File generateEnhancedFallbackUI]" "[js ''Missing.tsx'']"]
      validateGeneratedUI_pass_iff
        [of "[[js ''GeneratedUI.tsx''] \<mapsto> File (js ''onClick'')]" "[js ''GeneratedUI.tsx'']"]
      n m fallback_missingElements
    by (auto simp: lookup_def)
qed

section \<open>The orchestrator: auxiliary facts\<close>

lemma generateUI_save:
  assumes "callGeminiAPI this net (buildUIPrompt (appIdea options) options) = (Inr code, reqs)"
    and "saveGeneratedUI this fs code = (r, fs')"
  shows "generateUI this net fs options = (r, fs', reqs)"
  using assms by (cases r) (simp_all add: generateUI_def)

lemma generateUI_requests:
  "snd (snd (generateUI this net fs options))
     = snd (callGeminiAPI this net (buildUIPrompt (appIdea options) options))"
proof -
  obtain code reqs where c: "callGeminiAPI this net (buildUIPrompt (appIdea options) options) = (Inr code, reqs)"
    using callGeminiAPI_returns [of this net "buildUIPrompt (appIdea options) options"]
    by (cases "callGeminiAPI this net (buildUIPrompt (appIdea options) options)") auto
  obtain r fs' where s: "saveGeneratedUI this fs code = (r, fs')"
    by (cases "saveGeneratedUI this fs code")
  from generateUI_save [OF c s] c show ?thesis
    by simp
qed

lemma buildUIPrompt_theme:
  "theme o1 = theme o2 \<Longrightarrow> buildUIPrompt idea o1 = buildUIPrompt idea o2"
  by (simp add: buildUIPrompt_def)

lemma generateUI_appIdea_theme:
  "appIdea o1 = appIdea o2 \<Longrightarrow> theme o1 = theme o2 \<Longrightarrow>
     generateUI this net fs o1 = generateUI this net fs o2"
  using buildUIPrompt_theme [of o1 o2 "appIdea o2"] by (simp add: generateUI_def)

section \<open>C5: without a key the written file validates\<close>

text \<open>
  C5. Let the instance have no key (unset or empty). Whenever \<open>generateUI\<close> returns a
  path, for the options \<^verbatim>\<open>{ appIdea: "issue tracker" }\<close> as for any other, the last
  component of the path is \<^verbatim>\<open>GeneratedUI.tsx\<close>, no request was sent, the file at the
  path holds the fallback template, and \<open>validateGeneratedUI\<close> on the file system left
  behind returns true. It does return a path when no file stands where a directory of
  \<^verbatim>\<open><projectRoot>/app\<close> is needed and no directory stands at the output path.
\<close>

theorem generateUI_no_key_validates:
  assumes "apiKey this = None \<or> apiKey this = Some []"
  shows "(generateUI this net fs options = (Inr p, fs', reqs)
      \<longrightarrow> last p = js ''GeneratedUI.tsx'' \<and> reqs = []
         \<and> lookup fs' p = Some (File generateEnhancedFallbackUI)
         \<and> validateGeneratedUI fs' p = (Inr True, fs'))
    \<and> ((\<forall>q x. prefix q (join (projectRoot this) (js ''app'')) \<longrightarrow> fs q \<noteq> Some (File x))
        \<and> fs (join (join (projectRoot this) (js ''app'')) (js ''GeneratedUI.tsx'')) \<noteq> Some Directory
      \<longrightarrow> (\<exists>fs'. generateUI this net fs options
             = (Inr (join (join (projectRoot this) (js ''app'')) (js ''GeneratedUI.tsx'')), fs', [])))"
proof (intro conjI impI)
  have c: "callGeminiAPI this net (buildUIPrompt (appIdea options) options)
      = (Inr generateEnhancedFallbackUI, [])"
    by (rule callGeminiAPI_no_key [OF assms])
  have g: "generateUI this net fs options = (r, fs1, [])"
    if "saveGeneratedUI this fs generateEnhancedFallbackUI = (r, fs1)" for r fs1
    using generateUI_save [OF c that] .
  {
    assume a: "generateUI this net fs options = (Inr p, fs', reqs)"
    obtain r fs1 where s: "saveGeneratedUI this fs generateEnhancedFallbackUI = (r, fs1)"
      by (cases "saveGeneratedUI this fs generateEnhancedFallbackUI")
    from g [OF s] a have "r = Inr p" "fs1 = fs'" and reqs: "reqs = []"
      by simp_all
    with s have s': "saveGeneratedUI this fs generateEnhancedFallbackUI = (Inr p, fs')"
      by simp
    note p = saveGeneratedUI_result(1) [OF s']
    have f: "lookup fs' p = Some (File generateEnhancedFallbackUI)"
      using saveGeneratedUI_result(2) [OF s']
      by (simp add: utf8_written_well_formed [OF fallback_well_formed])
    from p show "last p = js ''GeneratedUI.tsx''"
      by (simp add: join_def)
    from reqs show "reqs = []" .
    from f show "lookup fs' p = Some (File generateEnhancedFallbackUI)" .
    from validateGeneratedUI_file [OF f] show "validateGeneratedUI fs' p = (Inr True, fs')"
      by (simp add: fallback_missingElements)
  }
  assume "(\<forall>q x. prefix q (join (projectRoot this) (js ''app'')) \<longrightarrow> fs q \<noteq> Some (File x))
    \<and> fs (join (join (projectRoot this) (js ''app'')) (js ''GeneratedUI.tsx'')) \<noteq> Some Directory"
  then have "\<exists>fs1. saveGeneratedUI this fs generateEnhancedFallbackUI
      = (Inr (join (join (projectRoot this) (js ''app'')) (js ''GeneratedUI.tsx'')), fs1)"
    by (intro saveGeneratedUI_succeeds) blast+
  then obtain fs1 where "saveGeneratedUI this fs generateEnhancedFallbackUI
      = (Inr (join (join (projectRoot this) (js ''app'')) (js ''GeneratedUI.tsx'')), fs1)"
    by blast
  from g [OF this]
  show "\<exists>fs'. generateUI this net fs options
      = (Inr (join (join (projectRoot this) (js ''app'')) (js ''GeneratedUI.tsx'')), fs', [])"
    by blast
qed

text \<open>
  C5 at the claim's input: no key in the environment, the options
  \<^verbatim>\<open>{ appIdea: "issue tracker" }\<close>, the project root \<^verbatim>\<open>proj\<close> on an empty file system.
\<close>

theorem generateUI_no_key_validates_witness:
  "\<exists>fs'. generateUI (new_UIGenerator \<lparr>cwd = [], env_GEMINI_API_KEY = None\<rparr> (Some [js ''proj'']))
       (\<lambda>r. Rejected) Map.empty
       \<lparr>appIdea = js ''issue tracker'', theme = None, features = None, options_apiKey = None\<rparr>
     = (Inr [js ''proj'', js ''app'', js ''GeneratedUI.tsx''], fs', [])
   \<and> last [js ''proj'', js ''app'', js ''GeneratedUI.tsx''] = js ''GeneratedUI.tsx''
   \<and> validateGeneratedUI fs' [js ''proj'', js ''app'', js ''GeneratedUI.tsx''] = (Inr True, fs')"
proof -
  let ?gen = "new_UIGenerator \<lparr>cwd = [], env_GEMINI_API_KEY = None\<rparr> (Some [js ''proj''])"
  let ?opts = "\<lparr>appIdea = js ''issue tracker'', theme = None, features = None, options_apiKey = None\<rparr>"
  let ?p = "[js ''proj'', js ''app'', js ''GeneratedUI.tsx'']"
  have k: "apiKey ?gen = None \<or> apiKey ?gen = Some []"
    by (simp add: new_UIGenerator_def)
  have r: "projectRoot ?gen = [js ''proj'']"
    by (simp add: new_UIGenerator_def)
  have pe: "join (join (projectRoot ?gen) (js ''app'')) (js ''GeneratedUI.tsx'') = ?p"
    by (simp add: r join_def)
  note t = generateUI_no_key_validates [OF k, where net = "\<lambda>r. Rejected" and fs = Map.empty
      and options = ?opts]
  have h: "(\<forall>q x. prefix q (join (projectRoot ?gen) (js ''app'')) \<longrightarrow> Map.empty q \<noteq> Some (File x))
    \<and> Map.empty (join (join (projectRoot ?gen) (js ''app'')) (js ''GeneratedUI.tsx'')) \<noteq> Some Directory"
    by simp
  from conjunct2 [OF t] h
  have "\<exists>fs'. generateUI ?gen (\<lambda>r. Rejected) Map.empty ?opts
      = (Inr (join (join (projectRoot ?gen) (js ''app'')) (js ''GeneratedUI.tsx'')), fs', [])"
    by (rule mp)
  then obtain fs' where g: "generateUI ?gen (\<lambda>r. Rejected) Map.empty ?opts = (Inr ?p, fs', [])"
    unfolding pe by (rule exE)
  from conjunct1 [OF t [where p = ?p and fs' = fs' and reqs = "[]"]] g
  have v: "last ?p = js ''GeneratedUI.tsx'' \<and> [] = ([] :: request list)
    \<and> lookup fs' ?p = Some (File generateEnhancedFallbackUI)
    \<and> validateGeneratedUI fs' ?p = (Inr True, fs')"
    by (rule mp)
  from v have l: "last ?p = js ''GeneratedUI.tsx''"
    by (rule conjunct1)
  from v have "validateGeneratedUI fs' ?p = (Inr True, fs')"
    by (rule conjunct2 [THEN conjunct2, THEN conjunct2])
  with g l have c: "generateUI ?gen (\<lambda>r. Rejected) Map.empty ?opts = (Inr ?p, fs', [])
    \<and> last ?p = js ''GeneratedUI.tsx''
    \<and> validateGeneratedUI fs' ?p = (Inr True, fs')"
    by (intro conjI)
  show ?thesis
    by (rule exI) (fact c)
qed

section \<open>C7: only the writer fails outward\<close>

text \<open>
  C7: an exception of \<open>saveGeneratedUI\<close> is the outcome of \<open>generateUI\<close>, the same error
  value; and whenever \<open>generateUI\<close> ends with an exception, that exception is the one
  \<open>saveGeneratedUI\<close> raised on the text the generation call returned. The generation call
  itself (with the extraction inside it) returns for every prompt, and the prompt builder
  is a total function.
\<close>

theorem generateUI_propagates_writer_error:
  "(callGeminiAPI this net (buildUIPrompt (appIdea options) options) = (Inr code, reqs)
      \<and> saveGeneratedUI this fs code = (Inl e, fs1)
     \<longrightarrow> generateUI this net fs options = (Inl e, fs1, reqs))
   \<and> (fst (generateUI this net fs options) = Inl e
     \<longrightarrow> (\<exists>code. fst (callGeminiAPI this net (buildUIPrompt (appIdea options) options)) = Inr code
            \<and> fst (saveGeneratedUI this fs code) = Inl e))
   \<and> (\<exists>code. fst (callGeminiAPI this net (buildUIPrompt (appIdea options) options)) = Inr code)"
proof (intro conjI impI)
  assume "callGeminiAPI this net (buildUIPrompt (appIdea options) options) = (Inr code, reqs)
    \<and> saveGeneratedUI this fs code = (Inl e, fs1)"
  then show "generateUI this net fs options = (Inl e, fs1, reqs)"
    by (simp add: generateUI_save)
next
  assume a: "fst (generateUI this net fs options) = Inl e"
  obtain code reqs where c: "callGeminiAPI this net (buildUIPrompt (appIdea options) options) = (Inr code, reqs)"
    using callGeminiAPI_returns [of this net "buildUIPrompt (appIdea options) options"]
    by (cases "callGeminiAPI this net (buildUIPrompt (appIdea options) options)") auto
  obtain r fs' where s: "saveGeneratedUI this fs code = (r, fs')"
    by (cases "saveGeneratedUI this fs code")
  from generateUI_save [OF c s] a have "r = Inl e"
    by simp
  with c s show "\<exists>code. fst (callGeminiAPI this net (buildUIPrompt (appIdea options) options)) = Inr code
      \<and> fst (saveGeneratedUI this fs code) = Inl e"
    by (intro exI [of _ code]) simp
next
  show "\<exists>code. fst (callGeminiAPI this net (buildUIPrompt (appIdea options) options)) = Inr code"
    by (rule callGeminiAPI_returns)
qed

text \<open>
  C7 where \<^verbatim>\<open>proj/app\<close> is a regular file: \<^verbatim>\<open>existsSync\<close> is true, no directory is
  made, \<^verbatim>\<open>writeFileSync\<close> fails with ENOTDIR, and \<open>generateUI\<close> ends with that error.
\<close>

theorem generateUI_propagates_writer_error_witness:
  "generateUI \<lparr>projectRoot = [js ''proj''], apiKey = None\<rparr> (\<lambda>r. Rejected)
     [[js ''proj''] \<mapsto> Directory, [js ''proj'', js ''app''] \<mapsto> File (js ''x'')]
     \<lparr>appIdea = js ''issue tracker'', theme = None, features = None, options_apiKey = None\<rparr>
   = (Inl (FsError ENOTDIR [js ''proj'', js ''app'', js ''GeneratedUI.tsx'']),
      [[js ''proj''] \<mapsto> Directory, [js ''proj'', js ''app''] \<mapsto> File (js ''x'')], [])"
proof -
  let ?gen = "\<lparr>projectRoot = [js ''proj''], apiKey = None\<rparr>"
  let ?fs = "[[js ''proj''] \<mapsto> Directory, [js ''proj'', js ''app''] \<mapsto> File (js ''x'')]"
  let ?opts = "\<lparr>appIdea = js ''issue tracker'', theme = None, features = None, options_apiKey = None\<rparr>"
  have c: "callGeminiAPI ?gen (\<lambda>r. Rejected) (buildUIPrompt (appIdea ?opts) ?opts)
      = (Inr generateEnhancedFallbackUI, [])"
    by (rule callGeminiAPI_no_key) simp
  have s: "saveGeneratedUI ?gen ?fs generateEnhancedFallbackUI
      = (Inl (FsError ENOTDIR [js ''proj'', js ''app'', js ''GeneratedUI.tsx'']), ?fs)"
    by (simp add: saveGeneratedUI_def join_def existsSync_def lookup_def writeFileSync_def)
  from generateUI_propagates_writer_error [where this = ?gen and net = "\<lambda>r. Rejected"
      and options = ?opts and code = generateEnhancedFallbackUI and reqs = "[]" and fs = ?fs
      and e = "FsError ENOTDIR [js ''proj'', js ''app'', js ''GeneratedUI.tsx'']" and ?fs1.0 = ?fs]
    c s
  show ?thesis
    by simp
qed

section \<open>C9: the key of the options\<close>

text \<open>
  C9, as stated, fails: \<open>callGeminiAPI\<close> reads the key of the instance only. With
  \<^verbatim>\<open>ENVKEY\<close> in the environment and \<^verbatim>\<open>OPTKEY\<close> in the options the request carries
  \<^verbatim>\<open>ENVKEY\<close>; with no key in the environment and \<^verbatim>\<open>OPTKEY\<close> in the options no
  request is sent at all.
\<close>

theorem generateUI_options_apiKey_counterexample:
  "map url (snd (snd (generateUI
       (new_UIGenerator \<lparr>cwd = [], env_GEMINI_API_KEY = Some (js ''ENVKEY'')\<rparr> None)
       unreachable Map.empty
       \<lparr>appIdea = js ''issue tracker'', theme = None, features = None,
         options_apiKey = Some (js ''OPTKEY'')\<rparr>)))
     = [js ''https://generativelanguage.googleapis.com/v1beta/models/gemini-1.5-flash:generateContent?key=''
          @ js ''ENVKEY'']
   \<and> js ''ENVKEY'' \<noteq> js ''OPTKEY''
   \<and> snd (snd (generateUI
       (new_UIGenerator \<lparr>cwd = [], env_GEMINI_API_KEY = None\<rparr> None)
       unreachable Map.empty
       \<lparr>appIdea = js ''issue tracker'', theme = None, features = None,
         options_apiKey = Some (js ''OPTKEY'')\<rparr>)) = []"
proof -
  have k: "js ''ENVKEY'' \<noteq> []" "js ''ENVKEY'' \<noteq> js ''OPTKEY''"
    by (simp_all add: js_def)
  then show ?thesis
    by (simp add: generateUI_requests callGeminiAPI_def callGeminiAPI_try_def new_UIGenerator_def
        gemini_request_def unreachable_def)
qed

text \<open>
  C9, amended: the \<^verbatim>\<open>apiKey\<close> field of the options is ignored. \<open>generateUI\<close> gives the
  same outcome, file system and requests whatever that field is; it sends no request when
  the instance has no key, and otherwise exactly one request, built from the key the
  constructor read from the environment.
\<close>

theorem generateUI_ignores_options_apiKey:
  "generateUI this net fs (options\<lparr>options_apiKey := k\<rparr>) = generateUI this net fs options
   \<and> snd (snd (generateUI this net fs options))
     = (case apiKey this of
          None \<Rightarrow> []
        | Some key \<Rightarrow>
            if key = [] then []
            else [gemini_request key (buildUIPrompt (appIdea options) options)])"
proof
  show "generateUI this net fs (options\<lparr>options_apiKey := k\<rparr>) = generateUI this net fs options"
    by (rule generateUI_appIdea_theme) simp_all
  show "snd (snd (generateUI this net fs options))
     = (case apiKey this of
          None \<Rightarrow> []
        | Some key \<Rightarrow>
            if key = [] then []
            else [gemini_request key (buildUIPrompt (appIdea options) options)])"
    by (simp add: generateUI_requests callGeminiAPI_def split: option.splits sum.splits)
qed

text \<open>The amended C9 on the two inputs of the counterexample.\<close>

theorem generateUI_ignores_options_apiKey_witness:
  "generateUI \<lparr>projectRoot = [], apiKey = Some (js ''ENVKEY'')\<rparr> (\<lambda>r. Rejected) Map.empty
     \<lparr>appIdea = js ''issue tracker'', theme = None, features = None,
       options_apiKey = Some (js ''OPTKEY'')\<rparr>
   = generateUI \<lparr>projectRoot = [], apiKey = Some (js ''ENVKEY'')\<rparr> (\<lambda>r. Rejected) Map.empty
     \<lparr>appIdea = js ''issue tracker'', theme = None, features = None, options_apiKey = None\<rparr>"
  using generateUI_ignores_options_apiKey
    [where this = "\<lparr>projectRoot = [], apiKey = Some (js ''ENVKEY'')\<rparr>" and net = "\<lambda>r. Rejected"
      and fs = Map.empty
      and options = "\<lparr>appIdea = js ''issue tracker'', theme = None, features = None,
          options_apiKey = None\<rparr>"
      and k = "Some (js ''OPTKEY'')"]
  by simp

section \<open>C10: the features of the options\<close>

text \<open>
  C10: two options that agree on every field but \<^verbatim>\<open>features\<close> give the same prompt
  and the same run of \<open>generateUI\<close> (outcome, file system and requests); in particular
  replacing the features of any options changes neither.
\<close>

theorem buildUIPrompt_ignores_features:
  "(appIdea o1 = appIdea o2 \<and> theme o1 = theme o2 \<and> options_apiKey o1 = options_apiKey o2
     \<longrightarrow> buildUIPrompt idea o1 = buildUIPrompt idea o2
         \<and> generateUI this net fs o1 = generateUI this net fs o2)
   \<and> buildUIPrompt idea (options\<lparr>features := f\<rparr>) = buildUIPrompt idea options
   \<and> generateUI this net fs (options\<lparr>features := f\<rparr>) = generateUI this net fs options"
proof (intro conjI impI)
  assume a: "appIdea o1 = appIdea o2 \<and> theme o1 = theme o2 \<and> options_apiKey o1 = options_apiKey o2"
  then show "buildUIPrompt idea o1 = buildUIPrompt idea o2"
    by (intro buildUIPrompt_theme) simp
  from a show "generateUI this net fs o1 = generateUI this net fs o2"
    by (intro generateUI_appIdea_theme) simp_all
next
  show "buildUIPrompt idea (options\<lparr>features := f\<rparr>) = buildUIPrompt idea options"
    by (rule buildUIPrompt_theme) simp
  show "generateUI this net fs (options\<lparr>features := f\<rparr>) = generateUI this net fs options"
    by (rule generateUI_appIdea_theme) simp_all
qed

text \<open>C10 on options with and without a list of features.\<close>

theorem buildUIPrompt_ignores_features_witness:
  "buildUIPrompt (js ''issue tracker'')
     \<lparr>appIdea = js ''issue tracker'', theme = Some Minimal,
       features = Some [js ''labels'', js ''search''], options_apiKey = None\<rparr>
   = buildUIPrompt (js ''issue tracker'')
     \<lparr>appIdea = js ''issue tracker'', theme = Some Minimal, features = None, options_apiKey = None\<rparr>
   \<and> generateUI \<lparr>projectRoot = [], apiKey = None\<rparr> (\<lambda>r. Rejected) Map.empty
     \<lparr>appIdea = js ''issue tracker'', theme = Some Minimal,
       features = Some [js ''labels'', js ''search''], options_apiKey = None\<rparr>
   = generateUI \<lparr>projectRoot = [], apiKey = None\<rparr> (\<lambda>r. Rejected) Map.empty
     \<lparr>appIdea = js ''issue tracker'', theme = Some Minimal, features = None, options_apiKey = None\<rparr>"
  using buildUIPrompt_ignores_features
    [where ?o1.0 = "\<lparr>appIdea = js ''issue tracker'', theme = Some Minimal,
          features = Some [js ''labels'', js ''search''], options_apiKey = None\<rparr>"
      and ?o2.0 = "\<lparr>appIdea = js ''issue tracker'', theme = Some Minimal, features = None,
          options_apiKey = None\<rparr>"
      and idea = "js ''issue tracker''" and this = "\<lparr>projectRoot = [], apiKey = None\<rparr>"
      and net = "\<lambda>r. Rejected" and fs = Map.empty]
  by simp

end
